theory Spec2Isabelle
  imports Main "HOL-Library.Char_ord" "HOL-Library.List_Lexorder" "HOL-Library.Multiset"
begin

section \<open>Data model\<close>

text \<open>
  The linter's verdict scale. The constant declaration of \<open>Severity\<close> is not part of the
  sources at hand; the five constants are the ones \<open>ResultContext.TtyPrint\<close> switches over,
  in that order.
\<close>

datatype Severity = Success | Exclude | Warning | Error | Quiet

text \<open>
  Modelled from the spec: the declaration of the \<open>Severity\<close> constants (an ordered
  enumeration) is missing. The spec fixes passing < excluded < warning < failing with
  passing as the floor; the presentation-only value \<open>Quiet\<close> is placed after the others, as
  in the order of the cases of \<open>TtyPrint\<close>.
\<close>

fun severity_rank :: "Severity \<Rightarrow> nat" where
  "severity_rank Success = 0"
| "severity_rank Exclude = 1"
| "severity_rank Warning = 2"
| "severity_rank Error = 3"
| "severity_rank Quiet = 4"

text \<open>The Go comparison \<open>a > b\<close> on two severities.\<close>

definition severity_gt :: "Severity \<Rightarrow> Severity \<Rightarrow> bool" where
  "severity_gt a b = (severity_rank b < severity_rank a)"

text \<open>
  The structs of the program are records. A field keeps its Go name where that name is
  free; the field \<open>Severity\<close> of \<open>Result\<close> is \<open>Severity_of\<close>, and the fields of
  \<open>ResultContext\<close>, \<open>ConfigurationEntry\<close>, \<open>Panel\<close> and \<open>Template\<close> that share a name with a
  type or with a field of another struct carry a prefix.
\<close>

record Result =
  Severity_of :: Severity
  Message :: string

text \<open>
  The structs \<open>Template\<close>, \<open>Target\<close>, \<open>Panel\<close> and \<open>Dashboard\<close> are declared outside the
  sources at hand; the fields below are the ones the sources and their tests read or set.
  A Go \<open>int\<close> is modelled as \<open>int\<close>: no arithmetic is done on target indices, they are
  only compared.
\<close>

record Template =
  Template_Name :: string
  Template_Type :: string
  Template_Label :: string
  Template_Datasource :: string
  Template_Multi :: bool
  Template_AllValue :: string
  Template_Query :: string

record Target =
  Idx :: int
  Expr :: string

record Panel =
  Panel_Title :: string
  Panel_Type :: string
  Targets :: "Target list"

record Dashboard =
  Title :: string
  Templating_List :: "Template list"

text \<open>
  \<open>Rule\<close> is an interface with the methods \<open>Name\<close> and \<open>Description\<close>; a rule value is
  modelled by what the two methods return.
\<close>

record Rule =
  Name :: string
  Description :: string

text \<open>
  \<open>ResultContext\<close>: the interface value \<open>Rule\<close> and the three pointers may be nil, which
  is \<open>None\<close> here.
\<close>

record ResultContext =
  RC_Result :: Result
  RC_Rule :: "Rule option"
  RC_Dashboard :: "Dashboard option"
  RC_Panel :: "Panel option"
  RC_Target :: "Target option"

record ConfigurationEntry =
  Entry_Reason :: string
  Entry_Dashboard :: string
  Entry_Panel :: string
  Entry_TargetIdx :: string

record ConfigurationRuleEntries =
  Reason :: string
  Entries :: "ConfigurationEntry list"

text \<open>
  \<open>ConfigurationFile\<close>: two Go maps from rule name to a pointer. A key can be absent
  (\<open>None\<close>), present with a nil pointer (\<open>Some None\<close>) or present with entries.
\<close>

record ConfigurationFile =
  Exclusions :: "string \<Rightarrow> ConfigurationRuleEntries option option"
  Warnings :: "string \<Rightarrow> ConfigurationRuleEntries option option"

record ResultSet =
  results :: "ResultContext list"
  config :: "ConfigurationFile option"

section \<open>strconv.Atoi\<close>

text \<open>
  The standard library's \<open>strconv.Atoi\<close> on a platform with 64-bit \<open>int\<close>: an optional
  sign, then at least one decimal digit and nothing else; a value outside the range of
  \<open>int\<close> is an error. \<open>None\<close> stands for a non-nil \<open>err\<close>.
\<close>

definition is_digit :: "char \<Rightarrow> bool" where
  "is_digit c = (CHR ''0'' \<le> c \<and> c \<le> CHR ''9'')"

definition digit_val :: "char \<Rightarrow> int" where
  "digit_val c = int (of_char c) - 48"

fun digits_val :: "int \<Rightarrow> string \<Rightarrow> int" where
  "digits_val n [] = n"
| "digits_val n (ch # s) = digits_val (n * 10 + digit_val ch) s"

definition Atoi :: "string \<Rightarrow> int option" where
  "Atoi s0 =
     (case s0 of
        [] \<Rightarrow> None
      | c # cs \<Rightarrow>
          (let s = (if c = CHR ''-'' \<or> c = CHR ''+'' then cs else s0) in
           if s = [] \<or> \<not> list_all is_digit s then None
           else
             (let n = digits_val 0 s;
                  n = (if c = CHR ''-'' then - n else n)
              in if - (2 ^ 63) \<le> n \<and> n < 2 ^ 63 then Some n else None)))"

section \<open>configuration.go\<close>

text \<open>\<open>ConfigurationEntry.IsMatch\<close>: three independent checks, each of which can clear \<open>ret\<close>.\<close>

definition IsMatch :: "ConfigurationEntry \<Rightarrow> ResultContext \<Rightarrow> bool" where
  "IsMatch ce r =
     (let ret = True;
          ret = (case RC_Dashboard r of
                   Some d \<Rightarrow> if Entry_Dashboard ce \<noteq> Title d then False else ret
                 | None \<Rightarrow> ret);
          ret = (case RC_Panel r of
                   Some p \<Rightarrow> if Entry_Panel ce \<noteq> Panel_Title p then False else ret
                 | None \<Rightarrow> ret);
          ret = (case RC_Target r of
                   Some t \<Rightarrow>
                     if Entry_TargetIdx ce \<noteq> [] then
                       (case Atoi (Entry_TargetIdx ce) of
                          Some idx \<Rightarrow> if idx \<noteq> Idx t then False else ret
                        | None \<Rightarrow> ret)
                     else ret
                 | None \<Rightarrow> ret)
      in ret)"

text \<open>
  The loop \<open>for _, ce := range entries { if ce.IsMatch(res) { matched = true } }\<close> of
  \<open>Apply\<close>, with the flag \<open>matched\<close> threaded through.
\<close>

fun match_loop :: "ConfigurationEntry list \<Rightarrow> ResultContext \<Rightarrow> bool \<Rightarrow> bool" where
  "match_loop [] res matched = matched"
| "match_loop (ce # ces) res matched = match_loop ces res (if IsMatch ce res then True else matched)"

text \<open>
  The computation of \<open>matched\<close> in each of the two blocks of \<open>Apply\<close> (the blocks differ
  only in the map they read): \<open>m\<close> is \<open>cf.Exclusions\<close> or \<open>cf.Warnings\<close>, \<open>name\<close> is
  \<open>res.Rule.Name()\<close>.
\<close>

definition matched_in ::
  "(string \<Rightarrow> ConfigurationRuleEntries option option) \<Rightarrow> string \<Rightarrow> ResultContext \<Rightarrow> bool" where
  "matched_in m name res =
     (case m name of
        Some (Some rule_entries) \<Rightarrow>
          (let matched = match_loop (Entries rule_entries) res False in
           if length (Entries rule_entries) = 0 then True else matched)
      | Some None \<Rightarrow> True
      | None \<Rightarrow> False)"

text \<open>The first block of \<open>Apply\<close>: the exclusion pass.\<close>

definition exclusion_pass :: "ConfigurationFile \<Rightarrow> string \<Rightarrow> ResultContext \<Rightarrow> ResultContext" where
  "exclusion_pass cf name res =
     (if matched_in (Exclusions cf) name res
      then res\<lparr>RC_Result := \<lparr>Severity_of = Exclude, Message = Message (RC_Result res) @ '' (Excluded)''\<rparr>\<rparr>
      else res)"

text \<open>The second block of \<open>Apply\<close>: the warning pass.\<close>

definition warning_pass :: "ConfigurationFile \<Rightarrow> string \<Rightarrow> ResultContext \<Rightarrow> ResultContext" where
  "warning_pass cf name res =
     (if matched_in (Warnings cf) name res
      then res\<lparr>RC_Result := (RC_Result res)\<lparr>Severity_of := Warning\<rparr>\<rparr>
      else res)"

text \<open>
  \<open>ConfigurationFile.Apply\<close>. The receiver is a pointer and \<open>res.Rule\<close> an interface
  value: when either is nil the call panics with a nil dereference, which is \<open>None\<close>.
\<close>

definition Apply :: "ConfigurationFile option \<Rightarrow> ResultContext \<Rightarrow> ResultContext option" where
  "Apply cfp res =
     (case cfp of
        None \<Rightarrow> None
      | Some cf \<Rightarrow>
          (case RC_Rule res of
             None \<Rightarrow> None
           | Some rule \<Rightarrow>
               (let res = exclusion_pass cf (Name rule) res;
                    res = warning_pass cf (Name rule) res
                in Some res)))"

section \<open>The result set\<close>

text \<open>
  The loop of \<open>Configure\<close>: \<open>rs.results[i] = rs.config.Apply(rs.results[i])\<close> for every
  index in turn; a panic in one call ends the loop.
\<close>

fun apply_loop :: "ConfigurationFile option \<Rightarrow> ResultContext list \<Rightarrow> ResultContext list option" where
  "apply_loop c [] = Some []"
| "apply_loop c (r # rest) =
     (case Apply c r of
        None \<Rightarrow> None
      | Some r' \<Rightarrow> (case apply_loop c rest of None \<Rightarrow> None | Some rest' \<Rightarrow> Some (r' # rest')))"

definition Configure :: "ConfigurationFile option \<Rightarrow> ResultSet \<Rightarrow> ResultSet option" where
  "Configure c rs =
     (let rs = rs\<lparr>config := c\<rparr> in
      case apply_loop (config rs) (results rs) of
        None \<Rightarrow> None
      | Some rcs \<Rightarrow> Some (rs\<lparr>results := rcs\<rparr>))"

definition AddResult :: "ResultContext \<Rightarrow> ResultSet \<Rightarrow> ResultSet option" where
  "AddResult r rs =
     (case (if config rs \<noteq> None then Apply (config rs) r else Some r) of
        None \<Rightarrow> None
      | Some r \<Rightarrow> Some (rs\<lparr>results := results rs @ [r]\<rparr>))"

text \<open>The zero value \<open>ResultSet{}\<close>: no results, no configuration.\<close>

definition empty_ResultSet :: ResultSet where
  "empty_ResultSet = \<lparr>results = [], config = None\<rparr>"

text \<open>Calling \<open>AddResult\<close> for each context of a sequence in turn.\<close>

fun add_results :: "ResultContext list \<Rightarrow> ResultSet \<Rightarrow> ResultSet option" where
  "add_results [] rs = Some rs"
| "add_results (r # rest) rs =
     (case AddResult r rs of None \<Rightarrow> None | Some rs' \<Rightarrow> add_results rest rs')"

text \<open>The loop of \<open>MaximumSeverity\<close>, with \<open>retVal\<close> threaded through.\<close>

fun max_loop :: "ResultContext list \<Rightarrow> Severity \<Rightarrow> Severity" where
  "max_loop [] retVal = retVal"
| "max_loop (res # rest) retVal =
     max_loop rest
       (if severity_gt (Severity_of (RC_Result res)) retVal then Severity_of (RC_Result res)
        else retVal)"

definition MaximumSeverity :: "ResultSet \<Rightarrow> Severity" where
  "MaximumSeverity rs = max_loop (results rs) Success"

subsection \<open>ByRule\<close>

text \<open>
  The map \<open>ret\<close> of \<open>ByRule\<close> is kept as an association list with one pair per key.
  \<open>group_append ret name res\<close> is \<open>ret[name] = append(ret[name], res)\<close>.
\<close>

fun group_append ::
  "(string \<times> ResultContext list) list \<Rightarrow> string \<Rightarrow> ResultContext \<Rightarrow> (string \<times> ResultContext list) list" where
  "group_append [] name res = [(name, [res])]"
| "group_append ((k, g) # ret) name res =
     (if k = name then (k, g @ [res]) # ret else (k, g) # group_append ret name res)"

text \<open>The first loop of \<open>ByRule\<close>; \<open>res.Rule.Name()\<close> panics on a nil \<open>Rule\<close>.\<close>

fun group_loop ::
  "ResultContext list \<Rightarrow> (string \<times> ResultContext list) list \<Rightarrow> (string \<times> ResultContext list) list option" where
  "group_loop [] ret = Some ret"
| "group_loop (res # rest) ret =
     (case RC_Rule res of
        None \<Rightarrow> None
      | Some rule \<Rightarrow> group_loop rest (group_append ret (Name rule) res))"

text \<open>
  The comparison function handed to \<open>sort.SliceStable\<close>:
  \<open>rule[i].Dashboard.Title < rule[j].Dashboard.Title\<close>, a nil dereference when either
  \<open>Dashboard\<close> is nil. Go compares strings bytewise, as the lexicographic order on
  \<open>char list\<close> does.
\<close>

definition less_title :: "ResultContext \<Rightarrow> ResultContext \<Rightarrow> bool option" where
  "less_title a b =
     (case RC_Dashboard a of
        None \<Rightarrow> None
      | Some da \<Rightarrow> (case RC_Dashboard b of None \<Rightarrow> None | Some db \<Rightarrow> Some (Title da < Title db)))"

text \<open>
  \<open>sort.SliceStable\<close> is the standard library's; it is modelled by its insertion sort
  \<open>for i := a + 1; i < b; i++ { for j := i; j > a && less(j, j-1); j-- { swap(j, j-1) } }\<close>,
  which is the whole of it for up to 20 elements (longer slices are sorted in such blocks,
  which are then merged, with the same outcome).
  \<open>insert_left x p\<close> is the inner loop: \<open>p\<close> holds the elements before \<open>x\<close>, nearest first.
\<close>

fun insert_left :: "ResultContext \<Rightarrow> ResultContext list \<Rightarrow> ResultContext list option" where
  "insert_left x [] = Some [x]"
| "insert_left x (y # p) =
     (case less_title x y of
        None \<Rightarrow> None
      | Some True \<Rightarrow> (case insert_left x p of None \<Rightarrow> None | Some p' \<Rightarrow> Some (y # p'))
      | Some False \<Rightarrow> Some (x # y # p))"

fun insertion_loop :: "ResultContext list \<Rightarrow> ResultContext list \<Rightarrow> ResultContext list option" where
  "insertion_loop p [] = Some (rev p)"
| "insertion_loop p (x # rest) =
     (case insert_left x p of None \<Rightarrow> None | Some p' \<Rightarrow> insertion_loop p' rest)"

definition SliceStable_by_title :: "ResultContext list \<Rightarrow> ResultContext list option" where
  "SliceStable_by_title rule = (case rule of [] \<Rightarrow> Some [] | x # rest \<Rightarrow> insertion_loop [x] rest)"

text \<open>The second loop of \<open>ByRule\<close>: every group is sorted.\<close>

fun sort_groups ::
  "(string \<times> ResultContext list) list \<Rightarrow> (string \<times> ResultContext list) list option" where
  "sort_groups [] = Some []"
| "sort_groups ((name, rule) # ret) =
     (case SliceStable_by_title rule of
        None \<Rightarrow> None
      | Some sorted_rule \<Rightarrow>
          (case sort_groups ret of None \<Rightarrow> None | Some ret' \<Rightarrow> Some ((name, sorted_rule) # ret')))"

definition ByRule :: "ResultSet \<Rightarrow> (string \<Rightarrow> ResultContext list option) option" where
  "ByRule rs =
     (case group_loop (results rs) [] of
        None \<Rightarrow> None
      | Some ret \<Rightarrow> (case sort_groups ret of None \<Rightarrow> None | Some ret' \<Rightarrow> Some (map_of ret')))"

text \<open>The rule name and the dashboard title of a context that has them.\<close>

definition rule_name :: "ResultContext \<Rightarrow> string" where
  "rule_name r = (case RC_Rule r of Some rule \<Rightarrow> Name rule | None \<Rightarrow> [])"

definition dashboard_title :: "ResultContext \<Rightarrow> string" where
  "dashboard_title r = (case RC_Dashboard r of Some d \<Rightarrow> Title d | None \<Rightarrow> [])"

subsection \<open>The fixtures of the repository's tests\<close>

text \<open>\<open>NewConfigurationFile\<close>: two empty maps.\<close>

definition NewConfigurationFile :: ConfigurationFile where
  "NewConfigurationFile = \<lparr>Exclusions = (\<lambda>k. None), Warnings = (\<lambda>k. None)\<rparr>"

text \<open>
  The helpers of the test file: \<open>appendConfigExclude\<close>, \<open>appendConfigWarning\<close> and
  \<open>newResultContext\<close> (which builds a \<open>TestRule\<close>, whose description is \<open>Test Rule\<close>).
\<close>

definition appendConfigExclude ::
  "string \<Rightarrow> string \<Rightarrow> string \<Rightarrow> string \<Rightarrow> ConfigurationFile \<Rightarrow> ConfigurationFile" where
  "appendConfigExclude rule dashboard panel targetIdx c =
     (let rule_entries =
            (case Exclusions c rule of
               Some (Some e) \<Rightarrow> e
             | _ \<Rightarrow> \<lparr>Reason = [], Entries = []\<rparr>);
          rule_entries =
            (if dashboard \<noteq> [] \<or> panel \<noteq> [] \<or> targetIdx \<noteq> []
             then rule_entries
                    \<lparr>Entries := Entries rule_entries @
                       [\<lparr>Entry_Reason = [], Entry_Dashboard = dashboard, Entry_Panel = panel,
                         Entry_TargetIdx = targetIdx\<rparr>]\<rparr>
             else rule_entries)
      in c\<lparr>Exclusions := (Exclusions c)(rule := Some (Some rule_entries))\<rparr>)"

definition appendConfigWarning ::
  "string \<Rightarrow> string \<Rightarrow> string \<Rightarrow> string \<Rightarrow> ConfigurationFile \<Rightarrow> ConfigurationFile" where
  "appendConfigWarning rule dashboard panel targetIdx c =
     (let rule_entries =
            (case Warnings c rule of
               Some (Some e) \<Rightarrow> e
             | _ \<Rightarrow> \<lparr>Reason = [], Entries = []\<rparr>);
          rule_entries =
            (if dashboard \<noteq> [] \<or> panel \<noteq> [] \<or> targetIdx \<noteq> []
             then rule_entries
                    \<lparr>Entries := Entries rule_entries @
                       [\<lparr>Entry_Reason = [], Entry_Dashboard = dashboard, Entry_Panel = panel,
                         Entry_TargetIdx = targetIdx\<rparr>]\<rparr>
             else rule_entries)
      in c\<lparr>Warnings := (Warnings c)(rule := Some (Some rule_entries))\<rparr>)"

definition newResultContext ::
  "string \<Rightarrow> string \<Rightarrow> string \<Rightarrow> string \<Rightarrow> Severity \<Rightarrow> ResultContext" where
  "newResultContext rule dashboard panel targetIdx sev =
     \<lparr>RC_Result = \<lparr>Severity_of = sev, Message = ''foo''\<rparr>,
      RC_Rule = (if rule \<noteq> [] then Some \<lparr>Name = rule, Description = ''Test Rule''\<rparr> else None),
      RC_Dashboard =
        (if dashboard \<noteq> [] then Some \<lparr>Title = dashboard, Templating_List = []\<rparr> else None),
      RC_Panel =
        (if panel \<noteq> [] then Some \<lparr>Panel_Title = panel, Panel_Type = [], Targets = []\<rparr> else None),
      RC_Target =
        (if targetIdx \<noteq> []
         then (case Atoi targetIdx of Some idx \<Rightarrow> Some \<lparr>Idx = idx, Expr = []\<rparr> | None \<Rightarrow> None)
         else None)\<rparr>"

subsection \<open>The matching rule as the specification words it\<close>

text \<open>
  The specification's reading of entry matching, for comparison with \<open>IsMatch\<close>: every field
  the entry sets must be present in the context and equal to it, and a field the entry
  leaves unset is not looked at.
\<close>

definition IsMatch_spec :: "ConfigurationEntry \<Rightarrow> ResultContext \<Rightarrow> bool" where
  "IsMatch_spec ce r =
     ((Entry_Dashboard ce = [] \<or>
         (case RC_Dashboard r of Some d \<Rightarrow> Title d = Entry_Dashboard ce | None \<Rightarrow> False)) \<and>
      (Entry_Panel ce = [] \<or>
         (case RC_Panel r of Some p \<Rightarrow> Panel_Title p = Entry_Panel ce | None \<Rightarrow> False)) \<and>
      (Entry_TargetIdx ce = [] \<or>
         (case RC_Target r of Some t \<Rightarrow> Atoi (Entry_TargetIdx ce) = Some (Idx t) | None \<Rightarrow> False)))"

subsection \<open>The panel job/instance rule\<close>

text \<open>
  Modelled from the spec: the Query Selector Validator is the PromQL parser of the
  Prometheus library and is not part of the sources. A label matcher is
  \<open>label op "value"\<close> with \<open>op\<close> exact-match or regex-match; a selector carries zero or
  more matchers; parsing a query yields its selectors in traversal order, or fails.
\<close>

datatype MatchType = MatchEqual | MatchRegexp

record Matcher =
  Matcher_Name :: string
  Matcher_Type :: MatchType
  Matcher_Value :: string

type_synonym Selector = "Matcher list"

text \<open>
  Modelled from the spec: how an operator is printed in the rule's messages
  (\<open>job selector is =, not =~\<close>).
\<close>

fun MatchType_String :: "MatchType \<Rightarrow> string" where
  "MatchType_String MatchEqual = ''=''"
| "MatchType_String MatchRegexp = ''=~''"

text \<open>
  Modelled from the spec: the validator's question "does this selector have a matcher for
  label L", answered with the matcher (its operator and matched value).
\<close>

fun find_matcher :: "string \<Rightarrow> Selector \<Rightarrow> Matcher option" where
  "find_matcher label [] = None"
| "find_matcher label (m # ms) = (if Matcher_Name m = label then Some m else find_matcher label ms)"

text \<open>
  Modelled from the spec: the rule \<open>NewPanelJobInstanceRule\<close> is outside the sources (only
  its test is at hand). The three checks of one label, in the spec's order: the matcher
  exists, it uses the regex-match operator, its value is the template reference.
\<close>

definition check_label :: "Selector \<Rightarrow> string \<Rightarrow> string \<Rightarrow> string option" where
  "check_label sel label expected =
     (case find_matcher label sel of
        None \<Rightarrow> Some (label @ '' selector not found'')
      | Some m \<Rightarrow>
          if Matcher_Type m \<noteq> MatchRegexp
          then Some (label @ '' selector is '' @ MatchType_String (Matcher_Type m) @ '', not =~'')
          else if Matcher_Value m \<noteq> expected
          then Some (label @ '' selector is '' @ Matcher_Value m @ '', not '' @ expected)
          else None)"

text \<open>
  Modelled from the spec: the checks for \<open>job\<close> against \<open>$job\<close>, then the same for
  \<open>instance\<close> against \<open>$instance\<close>; the first failing check is returned.
\<close>

definition check_selector :: "Selector \<Rightarrow> string option" where
  "check_selector sel =
     (case check_label sel ''job'' ''$job'' of
        Some e \<Rightarrow> Some e
      | None \<Rightarrow> check_label sel ''instance'' ''$instance'')"

text \<open>
  Modelled from the spec: all selectors of a query are checked in traversal order and the
  first failure is reported.
\<close>

fun check_selectors :: "Selector list \<Rightarrow> string option" where
  "check_selectors [] = None"
| "check_selectors (sel # sels) =
     (case check_selector sel of Some e \<Rightarrow> Some e | None \<Rightarrow> check_selectors sels)"

text \<open>
  Modelled from the spec: the result of a passing rule, the passing floor with the fixed
  message \<open>OK\<close>.
\<close>

definition OK_Result :: Result where
  "OK_Result = \<lparr>Severity_of = Success, Message = ''OK''\<rparr>"

text \<open>
  The characters \<open>'\<close> and \<open>"\<close> of the messages and queries.
\<close>

definition squote :: string where
  "squote = [CHR 0x27]"

definition dquote :: string where
  "dquote = [CHR 0x22]"

text \<open>
  Modelled from the spec: a failure message is
  \<open>Dashboard '<title>', panel '<title>' invalid PromQL query '<query>': <finding>\<close>.
\<close>

definition failure_message :: "Dashboard \<Rightarrow> Panel \<Rightarrow> string \<Rightarrow> string \<Rightarrow> string" where
  "failure_message d p query e =
     ''Dashboard '' @ squote @ Title d @ squote @ '', panel '' @ squote @ Panel_Title p @ squote @
     '' invalid PromQL query '' @ squote @ query @ squote @ '': '' @ e"

text \<open>
  Modelled from the spec: the panel job/instance rule, with the parser as a parameter.
  Every target's query is parsed; a query that fails to parse is not applicable and
  passes; otherwise the first failing check of its selectors is returned as a failure.
\<close>

fun lint_targets ::
  "(string \<Rightarrow> Selector list option) \<Rightarrow> Dashboard \<Rightarrow> Panel \<Rightarrow> Target list \<Rightarrow> Result" where
  "lint_targets parse d p [] = OK_Result"
| "lint_targets parse d p (t # ts) =
     (case parse (Expr t) of
        None \<Rightarrow> lint_targets parse d p ts
      | Some sels \<Rightarrow>
          (case check_selectors sels of
             Some e \<Rightarrow> \<lparr>Severity_of = Error, Message = failure_message d p (Expr t) e\<rparr>
           | None \<Rightarrow> lint_targets parse d p ts))"

definition PanelJobInstanceRule_LintPanel ::
  "(string \<Rightarrow> Selector list option) \<Rightarrow> Dashboard \<Rightarrow> Panel \<Rightarrow> Result" where
  "PanelJobInstanceRule_LintPanel parse d p = lint_targets parse d p (Targets p)"

text \<open>
  The fixtures of \<open>TestPanelJobInstanceRule\<close>: its dashboard, the panel it builds around
  each query, and its six queries.
\<close>

definition test_dashboard :: Dashboard where
  "test_dashboard =
     \<lparr>Title = ''dashboard'',
      Templating_List =
        [\<lparr>Template_Name = [], Template_Type = ''datasource'', Template_Label = [],
          Template_Datasource = [], Template_Multi = False, Template_AllValue = [],
          Template_Query = ''prometheus''\<rparr>]\<rparr>"

definition test_panel :: "string \<Rightarrow> Panel" where
  "test_panel expr =
     \<lparr>Panel_Title = ''panel'', Panel_Type = ''singlestat'', Targets = [\<lparr>Idx = 0, Expr = expr\<rparr>]\<rparr>"

definition query_valid :: string where
  "query_valid =
     ''sum(rate(foo{job=~'' @ dquote @ ''$job'' @ dquote @ '',instance=~'' @ dquote @ ''$instance'' @
     dquote @ ''}[5m]))''"

definition query_unparsable :: string where
  "query_unparsable = ''foo(bar.baz)''"

definition query_no_matcher :: string where
  "query_no_matcher = ''sum(rate(foo[5m]))''"

definition query_no_instance :: string where
  "query_no_instance = ''sum(rate(foo{job=~'' @ dquote @ ''$job'' @ dquote @ ''}[5m]))''"

definition query_not_regexp :: string where
  "query_not_regexp =
     ''sum(rate(foo{job='' @ dquote @ ''$job'' @ dquote @ '',instance='' @ dquote @ ''$instance'' @
     dquote @ ''}[5m]))''"

definition query_wrong_variable :: string where
  "query_wrong_variable =
     ''sum(rate(foo{job=~'' @ dquote @ ''$instance'' @ dquote @ '',instance=~'' @ dquote @ ''$job'' @
     dquote @ ''}[5m]))''"

text \<open>
  The selectors of the five queries of the test that parse, as a parser table; the
  query \<open>foo(bar.baz)\<close> does not parse and is absent. The metric name is the matcher
  \<open>__name__\<close> of the selector.
\<close>

definition matcher :: "string \<Rightarrow> MatchType \<Rightarrow> string \<Rightarrow> Matcher" where
  "matcher l ty v = \<lparr>Matcher_Name = l, Matcher_Type = ty, Matcher_Value = v\<rparr>"

definition test_parse :: "string \<Rightarrow> Selector list option" where
  "test_parse =
     map_of
       [(query_valid,
           [[matcher ''job'' MatchRegexp ''$job'', matcher ''instance'' MatchRegexp ''$instance'',
             matcher ''__name__'' MatchEqual ''foo'']]),
        (query_no_matcher, [[matcher ''__name__'' MatchEqual ''foo'']]),
        (query_no_instance,
           [[matcher ''job'' MatchRegexp ''$job'', matcher ''__name__'' MatchEqual ''foo'']]),
        (query_not_regexp,
           [[matcher ''job'' MatchEqual ''$job'', matcher ''instance'' MatchEqual ''$instance'',
             matcher ''__name__'' MatchEqual ''foo'']]),
        (query_wrong_variable,
           [[matcher ''job'' MatchRegexp ''$instance'', matcher ''instance'' MatchRegexp ''$job'',
             matcher ''__name__'' MatchEqual ''foo'']])]"

section \<open>Entry matching\<close>

lemma Atoi_Nil: "Atoi [] = None"
  by (simp add: Atoi_def)

lemma IsMatch_iff:
  "IsMatch ce r \<longleftrightarrow>
     (\<forall>d. RC_Dashboard r = Some d \<longrightarrow> Entry_Dashboard ce = Title d) \<and>
     (\<forall>p. RC_Panel r = Some p \<longrightarrow> Entry_Panel ce = Panel_Title p) \<and>
     (\<forall>t idx. RC_Target r = Some t \<longrightarrow> Atoi (Entry_TargetIdx ce) = Some idx \<longrightarrow> idx = Idx t)"
  by (auto simp: IsMatch_def Let_def Atoi_Nil split: option.splits)

lemma IsMatch_Result_irrelevant: "IsMatch ce (res\<lparr>RC_Result := x\<rparr>) = IsMatch ce res"
  by (simp add: IsMatch_def)

lemma match_loop_iff: "match_loop ces res matched \<longleftrightarrow> matched \<or> (\<exists>ce\<in>set ces. IsMatch ce res)"
  by (induction ces arbitrary: matched) auto

lemma matched_in_iff:
  "matched_in m name res \<longleftrightarrow>
     (case m name of
        None \<Rightarrow> False
      | Some None \<Rightarrow> True
      | Some (Some e) \<Rightarrow> Entries e = [] \<or> (\<exists>ce\<in>set (Entries e). IsMatch ce res))"
  by (auto simp: matched_in_def match_loop_iff split: option.splits)

lemma matched_in_Result_irrelevant:
  "matched_in m name (res\<lparr>RC_Result := x\<rparr>) = matched_in m name res"
  by (simp add: matched_in_iff IsMatch_Result_irrelevant split: option.splits)

lemma Apply_eq:
  assumes "RC_Rule res = Some rule"
  shows "Apply (Some cf) res =
     Some (res\<lparr>RC_Result :=
       \<lparr>Severity_of =
          (if matched_in (Warnings cf) (Name rule) res then Warning
           else if matched_in (Exclusions cf) (Name rule) res then Exclude
           else Severity_of (RC_Result res)),
        Message =
          (if matched_in (Exclusions cf) (Name rule) res
           then Message (RC_Result res) @ '' (Excluded)''
           else Message (RC_Result res))\<rparr>\<rparr>)"
  using assms
  by (simp add: Apply_def exclusion_pass_def warning_pass_def matched_in_Result_irrelevant)

lemmas fixture_defs =
  newResultContext_def appendConfigExclude_def appendConfigWarning_def NewConfigurationFile_def
  Atoi_def is_digit_def digit_val_def

text \<open>
  Claim C1 (as amended). \<open>IsMatch\<close> checks a field of the entry only against a scope the
  context carries: a dashboard, panel or target the context lacks is never checked, even
  when the entry sets the field. A field the entry sets that differs from the scope the
  context carries (dashboard title, panel title, or target index when \<open>TargetIdx\<close> parses
  as an integer) makes \<open>IsMatch\<close> false. When the entry sets the dashboard title for a
  context that carries a dashboard and the panel title for a context that carries a
  panel, \<open>IsMatch\<close> is true exactly when every scope the context carries is equal to the
  entry's field, an unset or unparsable \<open>TargetIdx\<close> not being compared.
\<close>

theorem IsMatch_characterisation:
  "((case RC_Dashboard r of None \<Rightarrow> False
     | Some d \<Rightarrow> Entry_Dashboard ce \<noteq> [] \<and> Entry_Dashboard ce \<noteq> Title d) \<or>
    (case RC_Panel r of None \<Rightarrow> False
     | Some p \<Rightarrow> Entry_Panel ce \<noteq> [] \<and> Entry_Panel ce \<noteq> Panel_Title p) \<or>
    (case RC_Target r of None \<Rightarrow> False
     | Some t \<Rightarrow> (case Atoi (Entry_TargetIdx ce) of None \<Rightarrow> False | Some idx \<Rightarrow> idx \<noteq> Idx t))
    \<longrightarrow> \<not> IsMatch ce r) \<and>
   ((RC_Dashboard r \<noteq> None \<longrightarrow> Entry_Dashboard ce \<noteq> []) \<and>
    (RC_Panel r \<noteq> None \<longrightarrow> Entry_Panel ce \<noteq> []) \<longrightarrow>
      (IsMatch ce r \<longleftrightarrow>
         (case RC_Dashboard r of None \<Rightarrow> True | Some d \<Rightarrow> Entry_Dashboard ce = Title d) \<and>
         (case RC_Panel r of None \<Rightarrow> True | Some p \<Rightarrow> Entry_Panel ce = Panel_Title p) \<and>
         (case RC_Target r of
            None \<Rightarrow> True
          | Some t \<Rightarrow>
              (case Atoi (Entry_TargetIdx ce) of None \<Rightarrow> True | Some idx \<Rightarrow> idx = Idx t))))"
  by (auto simp: IsMatch_iff split: option.splits)

theorem IsMatch_characterisation_witness:
  "IsMatch \<lparr>Entry_Reason = [], Entry_Dashboard = ''dash1'', Entry_Panel = ''panel1'',
            Entry_TargetIdx = ''0''\<rparr>
     (newResultContext ''rule1'' ''dash1'' ''panel1'' ''0'' Error) \<and>
   \<not> IsMatch \<lparr>Entry_Reason = [], Entry_Dashboard = ''dash1'', Entry_Panel = ''panel1'',
              Entry_TargetIdx = ''0''\<rparr>
     (newResultContext ''rule1'' ''dash1'' ''panel1'' ''1'' Error) \<and>
   IsMatch \<lparr>Entry_Reason = [], Entry_Dashboard = ''dash1'', Entry_Panel = ''panel1'',
            Entry_TargetIdx = ''0''\<rparr>
     (newResultContext ''rule1'' ''dash1'' [] [] Error)"
proof -
  let ?ce = "\<lparr>Entry_Reason = [], Entry_Dashboard = ''dash1'', Entry_Panel = ''panel1'',
              Entry_TargetIdx = ''0''\<rparr>"
  let ?ra = "newResultContext ''rule1'' ''dash1'' ''panel1'' ''0'' Error"
  let ?rb = "newResultContext ''rule1'' ''dash1'' ''panel1'' ''1'' Error"
  let ?rc = "newResultContext ''rule1'' ''dash1'' [] [] Error"
  have set_fields: "Entry_Dashboard ?ce \<noteq> [] \<and> Entry_Panel ?ce \<noteq> []" by simp
  have idx: "Atoi (Entry_TargetIdx ?ce) = Some 0" by (simp add: fixture_defs)
  from IsMatch_characterisation [where r = ?ra and ce = ?ce] set_fields idx
  have a: "IsMatch ?ce ?ra" by (simp add: fixture_defs)
  from IsMatch_characterisation [where r = ?rb and ce = ?ce] idx
  have b: "\<not> IsMatch ?ce ?rb" by (simp add: fixture_defs)
  from IsMatch_characterisation [where r = ?rc and ce = ?ce] set_fields
  have c: "IsMatch ?ce ?rc" by (simp add: fixture_defs)
  from a b c show ?thesis by blast
qed

text \<open>
  Claim C1 as stated fails: an entry that sets the dashboard \<open>dash1\<close>, the panel \<open>panel1\<close>
  and the target index \<open>0\<close> matches a context that carries no dashboard, no panel and no
  target, although none of the fields it sets is present in the context.
\<close>

theorem IsMatch_spec_counterexample:
  "\<not> IsMatch_spec
        \<lparr>Entry_Reason = [], Entry_Dashboard = ''dash1'', Entry_Panel = ''panel1'',
         Entry_TargetIdx = ''0''\<rparr>
        (newResultContext ''rule1'' [] [] [] Error) \<and>
   IsMatch \<lparr>Entry_Reason = [], Entry_Dashboard = ''dash1'', Entry_Panel = ''panel1'',
            Entry_TargetIdx = ''0''\<rparr>
     (newResultContext ''rule1'' [] [] [] Error)"
  by (simp add: IsMatch_spec_def IsMatch_def fixture_defs)

text \<open>
  Claim C9. When an entry's \<open>TargetIdx\<close> is a non-empty string that \<open>strconv.Atoi\<close>
  rejects, \<open>IsMatch\<close> skips the comparison of target indices: the entry matches a context
  exactly when the same entry with \<open>TargetIdx\<close> unset does, and whether it matches does not
  depend on which target the context carries.
\<close>

theorem IsMatch_unparsable_TargetIdx:
  assumes "Entry_TargetIdx ce \<noteq> []" and "Atoi (Entry_TargetIdx ce) = None"
  shows "IsMatch ce r = IsMatch (ce\<lparr>Entry_TargetIdx := []\<rparr>) r \<and>
         IsMatch ce (r\<lparr>RC_Target := Some t\<rparr>) = IsMatch ce (r\<lparr>RC_Target := Some t'\<rparr>)"
  using assms by (simp add: IsMatch_def split: option.splits)

theorem IsMatch_unparsable_TargetIdx_witness:
  "Entry_TargetIdx \<lparr>Entry_Reason = [], Entry_Dashboard = ''dash1'', Entry_Panel = ''panel1'',
                    Entry_TargetIdx = ''one''\<rparr> \<noteq> [] \<and>
   Atoi ''one'' = None \<and>
   IsMatch \<lparr>Entry_Reason = [], Entry_Dashboard = ''dash1'', Entry_Panel = ''panel1'',
            Entry_TargetIdx = ''one''\<rparr>
     (newResultContext ''rule1'' ''dash1'' ''panel1'' ''7'' Error) \<and>
   IsMatch \<lparr>Entry_Reason = [], Entry_Dashboard = ''dash1'', Entry_Panel = ''panel1'',
            Entry_TargetIdx = []\<rparr>
     (newResultContext ''rule1'' ''dash1'' ''panel1'' ''7'' Error)"
proof -
  let ?ce = "\<lparr>Entry_Reason = [], Entry_Dashboard = ''dash1'', Entry_Panel = ''panel1'',
              Entry_TargetIdx = ''one''\<rparr>"
  let ?r = "newResultContext ''rule1'' ''dash1'' ''panel1'' ''7'' Error"
  have a: "Entry_TargetIdx ?ce \<noteq> []" by simp
  have b: "Atoi (Entry_TargetIdx ?ce) = None" by (simp add: fixture_defs)
  have c: "IsMatch (?ce\<lparr>Entry_TargetIdx := []\<rparr>) ?r" by (simp add: IsMatch_def fixture_defs)
  from IsMatch_unparsable_TargetIdx [OF a b, of ?r] c have "IsMatch ?ce ?r" by simp
  with a b c show ?thesis by simp
qed

section \<open>Apply\<close>

text \<open>
  Claim C2. When the rule name of a context has an exclusion entry that matches the
  context and a warning entry that matches it, \<open>Apply\<close> runs the exclusion pass and then
  the warning pass: the result carries the suffix of the exclusion pass and the severity
  of the warning pass, so the final severity is the warning one.
\<close>

theorem Apply_exclusion_then_warning:
  assumes "RC_Rule res = Some rule"
    and "Exclusions cf (Name rule) = Some (Some ex)" and "ce \<in> set (Entries ex)" and "IsMatch ce res"
    and "Warnings cf (Name rule) = Some (Some wa)" and "cw \<in> set (Entries wa)" and "IsMatch cw res"
  shows "Apply (Some cf) res =
           Some (res\<lparr>RC_Result := \<lparr>Severity_of = Warning,
                                    Message = Message (RC_Result res) @ '' (Excluded)''\<rparr>\<rparr>) \<and>
         Apply (Some cf) res =
           Some (warning_pass cf (Name rule) (exclusion_pass cf (Name rule) res))"
proof -
  have e: "matched_in (Exclusions cf) (Name rule) res"
    using assms(2-4) by (auto simp: matched_in_iff)
  have w: "matched_in (Warnings cf) (Name rule) res"
    using assms(5-7) by (auto simp: matched_in_iff)
  show ?thesis
    using e w assms(1)
    by (simp add: Apply_eq exclusion_pass_def warning_pass_def matched_in_Result_irrelevant)
qed

theorem Apply_exclusion_then_warning_witness:
  "Apply (Some (appendConfigWarning ''rule1'' ''dash1'' [] []
                 (appendConfigExclude ''rule1'' ''dash1'' [] [] NewConfigurationFile)))
         (newResultContext ''rule1'' ''dash1'' [] [] Error) =
   Some ((newResultContext ''rule1'' ''dash1'' [] [] Error)
           \<lparr>RC_Result := \<lparr>Severity_of = Warning, Message = ''foo (Excluded)''\<rparr>\<rparr>)"
proof -
  let ?e = "\<lparr>Entry_Reason = [], Entry_Dashboard = ''dash1'', Entry_Panel = [], Entry_TargetIdx = []\<rparr>"
  let ?cf = "appendConfigWarning ''rule1'' ''dash1'' [] []
                 (appendConfigExclude ''rule1'' ''dash1'' [] [] NewConfigurationFile)"
  let ?r = "newResultContext ''rule1'' ''dash1'' [] [] Error"
  let ?rule = "\<lparr>Name = ''rule1'', Description = ''Test Rule''\<rparr>"
  have 1: "RC_Rule ?r = Some ?rule" by (simp add: fixture_defs)
  have 2: "Exclusions ?cf (Name ?rule) = Some (Some \<lparr>Reason = [], Entries = [?e]\<rparr>)"
    by (simp add: fixture_defs)
  have 3: "Warnings ?cf (Name ?rule) = Some (Some \<lparr>Reason = [], Entries = [?e]\<rparr>)"
    by (simp add: fixture_defs)
  have 4: "?e \<in> set (Entries \<lparr>Reason = [], Entries = [?e]\<rparr>)" by simp
  have 5: "IsMatch ?e ?r" by (simp add: IsMatch_def fixture_defs)
  from Apply_exclusion_then_warning [OF 1 2 4 5 3 4 5] show ?thesis
    by (simp add: fixture_defs)
qed

text \<open>
  Claim C5. In each pass of \<open>Apply\<close>: when the rule name is absent from the pass's map the
  pass returns the context unchanged; when it is present with an empty entry list the
  pass matches whatever the context; when it is present with a non-empty entry list the
  pass matches exactly when some entry of the list matches the context.
\<close>

theorem Apply_pass_lookup:
  "(Exclusions cf name = None \<longrightarrow> exclusion_pass cf name res = res) \<and>
   (Exclusions cf name = Some (Some e) \<and> Entries e = [] \<longrightarrow> matched_in (Exclusions cf) name res) \<and>
   (Exclusions cf name = Some (Some e) \<and> Entries e \<noteq> [] \<longrightarrow>
      (matched_in (Exclusions cf) name res \<longleftrightarrow> (\<exists>ce\<in>set (Entries e). IsMatch ce res))) \<and>
   (Warnings cf name = None \<longrightarrow> warning_pass cf name res = res) \<and>
   (Warnings cf name = Some (Some w) \<and> Entries w = [] \<longrightarrow> matched_in (Warnings cf) name res) \<and>
   (Warnings cf name = Some (Some w) \<and> Entries w \<noteq> [] \<longrightarrow>
      (matched_in (Warnings cf) name res \<longleftrightarrow> (\<exists>ce\<in>set (Entries w). IsMatch ce res)))"
  by (simp add: exclusion_pass_def warning_pass_def matched_in_iff)

theorem Apply_pass_lookup_witness:
  "exclusion_pass (appendConfigExclude ''rule1'' [] [] [] NewConfigurationFile) ''rule2''
     (newResultContext ''rule2'' ''dash1'' ''panel1'' ''0'' Error) =
     newResultContext ''rule2'' ''dash1'' ''panel1'' ''0'' Error \<and>
   matched_in (Exclusions (appendConfigExclude ''rule1'' [] [] [] NewConfigurationFile)) ''rule1''
     (newResultContext ''rule1'' ''dash1'' ''panel1'' ''0'' Error) \<and>
   matched_in (Warnings (appendConfigWarning ''rule1'' ''dash1'' [] [] NewConfigurationFile)) ''rule1''
     (newResultContext ''rule1'' ''dash1'' [] [] Error) \<and>
   \<not> matched_in (Warnings (appendConfigWarning ''rule1'' ''dash1'' [] [] NewConfigurationFile)) ''rule1''
     (newResultContext ''rule1'' ''dash2'' [] [] Error)"
proof -
  let ?c0 = "appendConfigExclude ''rule1'' [] [] [] NewConfigurationFile"
  let ?c1 = "appendConfigWarning ''rule1'' ''dash1'' [] [] NewConfigurationFile"
  let ?e = "\<lparr>Entry_Reason = [], Entry_Dashboard = ''dash1'', Entry_Panel = [], Entry_TargetIdx = []\<rparr>"
  let ?w = "\<lparr>Reason = [], Entries = [?e]\<rparr>"
  let ?r = "newResultContext ''rule1'' ''dash1'' ''panel1'' ''0'' Error"
  have absent: "Exclusions ?c0 ''rule2'' = None" by (simp add: fixture_defs)
  have empty_list: "Exclusions ?c0 ''rule1'' = Some (Some \<lparr>Reason = [], Entries = []\<rparr>)"
    by (simp add: fixture_defs)
  have some_list: "Warnings ?c1 ''rule1'' = Some (Some ?w) \<and> Entries ?w \<noteq> []"
    by (simp add: fixture_defs)
  have yes: "\<exists>ce\<in>set (Entries ?w). IsMatch ce (newResultContext ''rule1'' ''dash1'' [] [] Error)"
    by (simp add: IsMatch_def fixture_defs)
  have no: "\<not> (\<exists>ce\<in>set (Entries ?w). IsMatch ce (newResultContext ''rule1'' ''dash2'' [] [] Error))"
    by (simp add: IsMatch_def fixture_defs)
  from Apply_pass_lookup [where cf = ?c0 and name = "''rule2''"
      and res = "newResultContext ''rule2'' ''dash1'' ''panel1'' ''0'' Error"] absent
  have 1: "exclusion_pass ?c0 ''rule2'' (newResultContext ''rule2'' ''dash1'' ''panel1'' ''0'' Error) =
             newResultContext ''rule2'' ''dash1'' ''panel1'' ''0'' Error"
    by blast
  from Apply_pass_lookup [where cf = ?c0 and name = "''rule1''"
      and e = "\<lparr>Reason = [], Entries = []\<rparr>" and res = ?r] empty_list
  have 2: "matched_in (Exclusions ?c0) ''rule1'' ?r" by simp
  from Apply_pass_lookup [where cf = ?c1 and name = "''rule1''" and w = ?w] some_list yes
  have 3: "matched_in (Warnings ?c1) ''rule1'' (newResultContext ''rule1'' ''dash1'' [] [] Error)"
    by blast
  from Apply_pass_lookup [where cf = ?c1 and name = "''rule1''" and w = ?w] some_list no
  have 4: "\<not> matched_in (Warnings ?c1) ''rule1'' (newResultContext ''rule1'' ''dash2'' [] [] Error)"
    by blast
  from 1 2 3 4 show ?thesis by blast
qed

text \<open>
  Claim C6. When the exclusion pass matches, it sets the severity to \<open>Exclude\<close> and appends
  \<open> (Excluded)\<close> to the message it finds; when the warning pass matches, it sets the
  severity to \<open>Warning\<close> and keeps the message. For a context with a rule, \<open>Apply\<close>
  therefore returns the context with these two rewrites of its result and nothing else
  changed.
\<close>

theorem Apply_rewrites:
  "(matched_in (Exclusions cf) name res \<longrightarrow>
      exclusion_pass cf name res =
        res\<lparr>RC_Result := \<lparr>Severity_of = Exclude,
                           Message = Message (RC_Result res) @ '' (Excluded)''\<rparr>\<rparr>) \<and>
   (matched_in (Warnings cf) name res \<longrightarrow>
      warning_pass cf name res =
        res\<lparr>RC_Result := \<lparr>Severity_of = Warning, Message = Message (RC_Result res)\<rparr>\<rparr>) \<and>
   (RC_Rule res = Some rule \<longrightarrow>
      Apply (Some cf) res =
        Some (res\<lparr>RC_Result :=
          \<lparr>Severity_of =
             (if matched_in (Warnings cf) (Name rule) res then Warning
              else if matched_in (Exclusions cf) (Name rule) res then Exclude
              else Severity_of (RC_Result res)),
           Message =
             (if matched_in (Exclusions cf) (Name rule) res
              then Message (RC_Result res) @ '' (Excluded)''
              else Message (RC_Result res))\<rparr>\<rparr>))"
  by (simp add: Apply_eq exclusion_pass_def warning_pass_def)

theorem Apply_rewrites_witness:
  "exclusion_pass (appendConfigExclude ''rule1'' ''dash1'' [] [] NewConfigurationFile) ''rule1''
     (newResultContext ''rule1'' ''dash1'' [] [] Error) =
     (newResultContext ''rule1'' ''dash1'' [] [] Error)
       \<lparr>RC_Result := \<lparr>Severity_of = Exclude, Message = ''foo (Excluded)''\<rparr>\<rparr> \<and>
   warning_pass (appendConfigWarning ''rule1'' ''dash1'' [] [] NewConfigurationFile) ''rule1''
     (newResultContext ''rule1'' ''dash1'' [] [] Error) =
     (newResultContext ''rule1'' ''dash1'' [] [] Error)
       \<lparr>RC_Result := \<lparr>Severity_of = Warning, Message = ''foo''\<rparr>\<rparr> \<and>
   Apply (Some (appendConfigExclude ''rule1'' ''dash1'' [] [] NewConfigurationFile))
     (newResultContext ''rule1'' ''dash1'' [] [] Error) =
     Some ((newResultContext ''rule1'' ''dash1'' [] [] Error)
       \<lparr>RC_Result := \<lparr>Severity_of = Exclude, Message = ''foo (Excluded)''\<rparr>\<rparr>)"
proof -
  let ?ce = "appendConfigExclude ''rule1'' ''dash1'' [] [] NewConfigurationFile"
  let ?cw = "appendConfigWarning ''rule1'' ''dash1'' [] [] NewConfigurationFile"
  let ?r = "newResultContext ''rule1'' ''dash1'' [] [] Error"
  let ?rule = "\<lparr>Name = ''rule1'', Description = ''Test Rule''\<rparr>"
  have me: "matched_in (Exclusions ?ce) ''rule1'' ?r"
    by (simp add: matched_in_def IsMatch_def fixture_defs)
  have mw: "matched_in (Warnings ?cw) ''rule1'' ?r"
    by (simp add: matched_in_def IsMatch_def fixture_defs)
  have nw: "\<not> matched_in (Warnings ?ce) ''rule1'' ?r"
    by (simp add: matched_in_def fixture_defs)
  have rule: "RC_Rule ?r = Some ?rule" by (simp add: fixture_defs)
  have msg: "Message (RC_Result ?r) = ''foo''" by (simp add: fixture_defs)
  from Apply_rewrites [where cf = ?ce and name = "''rule1''" and res = ?r] me msg
  have 1: "exclusion_pass ?ce ''rule1'' ?r =
             ?r\<lparr>RC_Result := \<lparr>Severity_of = Exclude, Message = ''foo (Excluded)''\<rparr>\<rparr>"
    by simp
  from Apply_rewrites [where cf = ?cw and name = "''rule1''" and res = ?r] mw msg
  have 2: "warning_pass ?cw ''rule1'' ?r =
             ?r\<lparr>RC_Result := \<lparr>Severity_of = Warning, Message = ''foo''\<rparr>\<rparr>"
    by simp
  from Apply_rewrites [where cf = ?ce and res = ?r and rule = ?rule] me nw rule msg
  have 3: "Apply (Some ?ce) ?r =
             Some (?r\<lparr>RC_Result := \<lparr>Severity_of = Exclude, Message = ''foo (Excluded)''\<rparr>\<rparr>)"
    by simp
  from 1 2 3 show ?thesis by blast
qed

section \<open>The result set\<close>

lemma severity_rank_inj: "severity_rank a = severity_rank b \<Longrightarrow> a = b"
  by (cases a; cases b) simp_all

lemma max_loop_ge: "severity_rank v \<le> severity_rank (max_loop rs v)"
proof (induction rs arbitrary: v)
  case Nil
  show ?case by simp
next
  case (Cons r rs)
  let ?v' = "if severity_gt (Severity_of (RC_Result r)) v then Severity_of (RC_Result r) else v"
  have "severity_rank v \<le> severity_rank ?v'" by (simp add: severity_gt_def)
  also have "\<dots> \<le> severity_rank (max_loop rs ?v')" by (rule Cons.IH)
  finally show ?case by simp
qed

lemma max_loop_upper:
  "r \<in> set rs \<Longrightarrow> severity_rank (Severity_of (RC_Result r)) \<le> severity_rank (max_loop rs v)"
proof (induction rs arbitrary: v)
  case Nil
  then show ?case by simp
next
  case (Cons a rs)
  let ?v' = "if severity_gt (Severity_of (RC_Result a)) v then Severity_of (RC_Result a) else v"
  show ?case
  proof (cases "r = a")
    case True
    have "severity_rank (Severity_of (RC_Result a)) \<le> severity_rank ?v'"
      by (simp add: severity_gt_def)
    also have "\<dots> \<le> severity_rank (max_loop rs ?v')" by (rule max_loop_ge)
    finally show ?thesis using True by simp
  next
    case False
    with Cons.prems have "r \<in> set rs" by simp
    from Cons.IH [OF this, of ?v'] show ?thesis by simp
  qed
qed

lemma max_loop_mem:
  "max_loop rs v = v \<or> max_loop rs v \<in> (\<lambda>r. Severity_of (RC_Result r)) ` set rs"
proof (induction rs arbitrary: v)
  case Nil
  show ?case by simp
next
  case (Cons a rs)
  let ?v' = "if severity_gt (Severity_of (RC_Result a)) v then Severity_of (RC_Result a) else v"
  from Cons.IH [of ?v'] show ?case by (auto split: if_splits)
qed

text \<open>
  Claim C4. \<open>MaximumSeverity\<close> of a result set with no results is \<open>Success\<close>, the passing
  floor; for a non-empty result set it is the severity of one of the results and no result
  has a greater one, in the order where \<open>Success\<close> < \<open>Exclude\<close> < \<open>Warning\<close> < \<open>Error\<close>.
\<close>

theorem MaximumSeverity_greatest:
  "MaximumSeverity \<lparr>results = [], config = c\<rparr> = Success \<and>
   (results rs \<noteq> [] \<longrightarrow>
      MaximumSeverity rs \<in> (\<lambda>r. Severity_of (RC_Result r)) ` set (results rs) \<and>
      (\<forall>r\<in>set (results rs).
         severity_rank (Severity_of (RC_Result r)) \<le> severity_rank (MaximumSeverity rs))) \<and>
   severity_rank Success < severity_rank Exclude \<and>
   severity_rank Exclude < severity_rank Warning \<and>
   severity_rank Warning < severity_rank Error"
proof -
  have "MaximumSeverity rs \<in> (\<lambda>r. Severity_of (RC_Result r)) ` set (results rs)"
    if ne: "results rs \<noteq> []"
  proof (cases "max_loop (results rs) Success = Success")
    case False
    with max_loop_mem [of "results rs" Success] show ?thesis
      by (simp add: MaximumSeverity_def)
  next
    case True
    from ne obtain r where r: "r \<in> set (results rs)" by (cases "results rs") auto
    from max_loop_upper [OF r, of Success] True
    have "severity_rank (Severity_of (RC_Result r)) = severity_rank Success" by simp
    then have "Severity_of (RC_Result r) = Success" by (rule severity_rank_inj)
    with r True show ?thesis by (force simp: MaximumSeverity_def)
  qed
  then show ?thesis
    by (simp add: MaximumSeverity_def max_loop_upper)
qed

theorem MaximumSeverity_greatest_witness:
  "MaximumSeverity \<lparr>results = [newResultContext [] [] [] [] Success,
                                newResultContext [] [] [] [] Warning,
                                newResultContext [] [] [] [] Error], config = None\<rparr> = Error"
proof -
  let ?rs = "\<lparr>results = [newResultContext [] [] [] [] Success,
                          newResultContext [] [] [] [] Warning,
                          newResultContext [] [] [] [] Error], config = None\<rparr>"
  have ne: "results ?rs \<noteq> []" by simp
  from MaximumSeverity_greatest [of None ?rs] ne
  have "\<forall>r\<in>set (results ?rs).
         severity_rank (Severity_of (RC_Result r)) \<le> severity_rank (MaximumSeverity ?rs)"
    by blast
  then have "3 \<le> severity_rank (MaximumSeverity ?rs)" by (simp add: newResultContext_def)
  moreover from MaximumSeverity_greatest [of None ?rs] ne
  have "MaximumSeverity ?rs \<in> (\<lambda>r. Severity_of (RC_Result r)) ` set (results ?rs)" by blast
  ultimately show ?thesis by (auto simp: newResultContext_def)
qed

lemma add_results_unconfigured:
  "config rs = None \<Longrightarrow> add_results rcs rs = Some (rs\<lparr>results := results rs @ rcs\<rparr>)"
  by (induction rcs arbitrary: rs) (simp_all add: AddResult_def)

lemma add_results_configured:
  "config rs = Some cf \<Longrightarrow>
   add_results rcs rs =
     (case apply_loop (Some cf) rcs of
        None \<Rightarrow> None
      | Some l \<Rightarrow> Some (rs\<lparr>results := results rs @ l\<rparr>))"
  by (induction rcs arbitrary: rs) (auto simp: AddResult_def split: option.splits)

lemma apply_loop_total:
  "\<forall>r\<in>set rcs. RC_Rule r \<noteq> None \<Longrightarrow>
   \<exists>l. apply_loop (Some cf) rcs = Some l \<and> length l = length rcs"
  by (induction rcs) (auto simp: Apply_def)

text \<open>
  Claim C3. For a configuration file and a sequence of contexts, starting from the empty
  result set: calling \<open>AddResult\<close> for each context and then \<open>Configure\<close> gives the same
  outcome as calling \<open>Configure\<close> and then \<open>AddResult\<close> for each context. Both orders
  apply the configuration once to each context; when every context has a rule, both
  return a result set with one result per context.
\<close>

theorem Configure_AddResult_commute:
  "Option.bind (add_results rcs empty_ResultSet) (Configure (Some cf)) =
   Option.bind (Configure (Some cf) empty_ResultSet) (add_results rcs) \<and>
   Option.bind (add_results rcs empty_ResultSet) (Configure (Some cf)) =
   map_option (\<lambda>l. \<lparr>results = l, config = Some cf\<rparr>) (apply_loop (Some cf) rcs) \<and>
   ((\<forall>r\<in>set rcs. RC_Rule r \<noteq> None) \<longrightarrow>
      (\<exists>l. Option.bind (add_results rcs empty_ResultSet) (Configure (Some cf)) =
            Some \<lparr>results = l, config = Some cf\<rparr> \<and> length l = length rcs))"
proof -
  have l: "Option.bind (add_results rcs empty_ResultSet) (Configure (Some cf)) =
     map_option (\<lambda>l. \<lparr>results = l, config = Some cf\<rparr>) (apply_loop (Some cf) rcs)"
    by (simp add: add_results_unconfigured empty_ResultSet_def Configure_def split: option.splits)
  have r: "Option.bind (Configure (Some cf) empty_ResultSet) (add_results rcs) =
     map_option (\<lambda>l. \<lparr>results = l, config = Some cf\<rparr>) (apply_loop (Some cf) rcs)"
    by (simp add: add_results_configured [of _ cf] empty_ResultSet_def Configure_def
        split: option.splits)
  show ?thesis
    using apply_loop_total [of rcs cf] by (auto simp: l r)
qed

theorem Configure_AddResult_commute_witness:
  "Option.bind
     (add_results [newResultContext ''rule1'' [] [] [] Error,
                   newResultContext ''rule2'' [] [] [] Error] empty_ResultSet)
     (Configure (Some (appendConfigExclude ''rule1'' [] [] [] NewConfigurationFile))) =
   Some \<lparr>results =
           [(newResultContext ''rule1'' [] [] [] Error)
              \<lparr>RC_Result := \<lparr>Severity_of = Exclude, Message = ''foo (Excluded)''\<rparr>\<rparr>,
            newResultContext ''rule2'' [] [] [] Error],
         config = Some (appendConfigExclude ''rule1'' [] [] [] NewConfigurationFile)\<rparr> \<and>
   Option.bind
     (Configure (Some (appendConfigExclude ''rule1'' [] [] [] NewConfigurationFile)) empty_ResultSet)
     (add_results [newResultContext ''rule1'' [] [] [] Error,
                   newResultContext ''rule2'' [] [] [] Error]) =
   Some \<lparr>results =
           [(newResultContext ''rule1'' [] [] [] Error)
              \<lparr>RC_Result := \<lparr>Severity_of = Exclude, Message = ''foo (Excluded)''\<rparr>\<rparr>,
            newResultContext ''rule2'' [] [] [] Error],
         config = Some (appendConfigExclude ''rule1'' [] [] [] NewConfigurationFile)\<rparr>"
proof -
  let ?cf = "appendConfigExclude ''rule1'' [] [] [] NewConfigurationFile"
  let ?rcs = "[newResultContext ''rule1'' [] [] [] Error, newResultContext ''rule2'' [] [] [] Error]"
  let ?out = "[(newResultContext ''rule1'' [] [] [] Error)
                 \<lparr>RC_Result := \<lparr>Severity_of = Exclude, Message = ''foo (Excluded)''\<rparr>\<rparr>,
               newResultContext ''rule2'' [] [] [] Error]"
  let ?A = "Option.bind (add_results ?rcs empty_ResultSet) (Configure (Some ?cf))"
  let ?B = "Option.bind (Configure (Some ?cf) empty_ResultSet) (add_results ?rcs)"
  have loop: "apply_loop (Some ?cf) ?rcs = Some ?out"
    by (simp add: Apply_def exclusion_pass_def warning_pass_def matched_in_def fixture_defs)
  note c = Configure_AddResult_commute [of ?rcs ?cf]
  from c have e1: "?A = ?B" by (rule conjunct1)
  from c have e2: "?A = map_option (\<lambda>l. \<lparr>results = l, config = Some ?cf\<rparr>) (apply_loop (Some ?cf) ?rcs)"
    by (rule conjunct1 [OF conjunct2])
  have a: "?A = Some \<lparr>results = ?out, config = Some ?cf\<rparr>"
    unfolding e2 loop by simp
  have b: "?B = Some \<lparr>results = ?out, config = Some ?cf\<rparr>"
    unfolding e1 [symmetric] by (rule a)
  from a b show ?thesis by (rule conjI)
qed

section \<open>ByRule\<close>

subsection \<open>The stable sort of a group\<close>

lemma less_title_Some:
  "RC_Dashboard a \<noteq> None \<Longrightarrow> RC_Dashboard b \<noteq> None \<Longrightarrow>
   less_title a b = Some (dashboard_title a < dashboard_title b)"
  by (auto simp: less_title_def dashboard_title_def)

lemma less_title_None_iff:
  "less_title a b = None \<longleftrightarrow> RC_Dashboard a = None \<or> RC_Dashboard b = None"
  by (auto simp: less_title_def split: option.splits)

lemma insert_left_total:
  assumes "RC_Dashboard x \<noteq> None" and "\<forall>y\<in>set p. RC_Dashboard y \<noteq> None"
  shows "\<exists>p'. insert_left x p = Some p' \<and> set p' = insert x (set p) \<and> length p' = Suc (length p)"
  using assms
proof (induction p)
  case Nil
  then show ?case by simp
next
  case (Cons y p)
  then obtain p' where p': "insert_left x p = Some p'" "set p' = insert x (set p)"
      "length p' = Suc (length p)"
    by auto
  from Cons.prems have lt: "less_title x y = Some (dashboard_title x < dashboard_title y)"
    by (simp add: less_title_Some)
  show ?case
    using p' by (cases "dashboard_title x < dashboard_title y") (auto simp: lt)
qed

lemma insert_left_sorted:
  assumes "RC_Dashboard x \<noteq> None" and "\<forall>y\<in>set p. RC_Dashboard y \<noteq> None"
    and "sorted_wrt (\<lambda>a b. dashboard_title b \<le> dashboard_title a) p"
  shows "\<exists>p'. insert_left x p = Some p' \<and> set p' = insert x (set p) \<and>
           mset p' = add_mset x (mset p) \<and>
           sorted_wrt (\<lambda>a b. dashboard_title b \<le> dashboard_title a) p' \<and>
           (\<forall>k. filter (\<lambda>y. dashboard_title y = k) p' =
                  (if dashboard_title x = k then [x] else []) @ filter (\<lambda>y. dashboard_title y = k) p)"
  using assms
proof (induction p)
  case Nil
  then show ?case by simp
next
  case (Cons y p)
  from Cons.prems have lt: "less_title x y = Some (dashboard_title x < dashboard_title y)"
    by (simp add: less_title_Some)
  show ?case
  proof (cases "dashboard_title x < dashboard_title y")
    case True
    from Cons obtain p' where p': "insert_left x p = Some p'" "set p' = insert x (set p)"
      "mset p' = add_mset x (mset p)"
      "sorted_wrt (\<lambda>a b. dashboard_title b \<le> dashboard_title a) p'"
      "\<forall>k. filter (\<lambda>y. dashboard_title y = k) p' =
                  (if dashboard_title x = k then [x] else []) @ filter (\<lambda>y. dashboard_title y = k) p"
      by auto
    have "sorted_wrt (\<lambda>a b. dashboard_title b \<le> dashboard_title a) (y # p')"
      using p'(2,4) Cons.prems(3) True by auto
    moreover have "\<forall>k. filter (\<lambda>y. dashboard_title y = k) (y # p') =
        (if dashboard_title x = k then [x] else []) @ filter (\<lambda>y. dashboard_title y = k) (y # p)"
      using p'(5) True by auto
    ultimately show ?thesis
      using p'(1,2,3) True by (simp add: lt insert_commute)
  next
    case False
    then have "dashboard_title y \<le> dashboard_title x" by simp
    then have "sorted_wrt (\<lambda>a b. dashboard_title b \<le> dashboard_title a) (x # y # p)"
      using Cons.prems(3) by auto
    then show ?thesis using False by (simp add: lt)
  qed
qed

lemma insertion_loop_sorted:
  assumes "\<forall>y\<in>set p \<union> set xs. RC_Dashboard y \<noteq> None"
    and "sorted_wrt (\<lambda>a b. dashboard_title b \<le> dashboard_title a) p"
  shows "\<exists>ys. insertion_loop p xs = Some ys \<and> mset ys = mset p + mset xs \<and>
           sorted (map dashboard_title ys) \<and>
           (\<forall>k. filter (\<lambda>y. dashboard_title y = k) ys =
                  filter (\<lambda>y. dashboard_title y = k) (rev p @ xs))"
  using assms
proof (induction xs arbitrary: p)
  case Nil
  then show ?case by (simp add: sorted_map sorted_wrt_rev)
next
  case (Cons x xs)
  from Cons.prems insert_left_sorted [of x p]
  obtain p' where p': "insert_left x p = Some p'" "set p' = insert x (set p)"
      "mset p' = add_mset x (mset p)"
      "sorted_wrt (\<lambda>a b. dashboard_title b \<le> dashboard_title a) p'"
      "\<forall>k. filter (\<lambda>y. dashboard_title y = k) p' =
             (if dashboard_title x = k then [x] else []) @ filter (\<lambda>y. dashboard_title y = k) p"
    by auto
  have "\<forall>y\<in>set p' \<union> set xs. RC_Dashboard y \<noteq> None"
    using Cons.prems(1) p'(2) by auto
  from Cons.IH [OF this p'(4)] obtain ys where ys: "insertion_loop p' xs = Some ys"
      "mset ys = mset p' + mset xs" "sorted (map dashboard_title ys)"
      "\<forall>k. filter (\<lambda>y. dashboard_title y = k) ys = filter (\<lambda>y. dashboard_title y = k) (rev p' @ xs)"
    by auto
  have "filter (\<lambda>y. dashboard_title y = k) (rev p') =
        filter (\<lambda>y. dashboard_title y = k) (rev p) @ (if dashboard_title x = k then [x] else [])" for k
    using p'(5) by (simp flip: rev_filter)
  then show ?case
    using ys p'(1,3) by simp
qed

lemma SliceStable_by_title_sort_key:
  assumes "\<forall>y\<in>set g. RC_Dashboard y \<noteq> None"
  shows "SliceStable_by_title g = Some (sort_key dashboard_title g)"
proof (cases g)
  case Nil
  then show ?thesis by (simp add: SliceStable_by_title_def)
next
  case (Cons x xs)
  from insertion_loop_sorted [of "[x]" xs] assms Cons
  obtain ys where ys: "insertion_loop [x] xs = Some ys" "mset ys = mset g"
      "sorted (map dashboard_title ys)"
      "\<forall>k. filter (\<lambda>y. dashboard_title y = k) ys = filter (\<lambda>y. dashboard_title y = k) g"
    by auto
  have "sort_key dashboard_title g = ys"
  proof (rule properties_for_sort_key)
    show "mset ys = mset g" by (rule ys(2))
    show "sorted (map dashboard_title ys)" by (rule ys(3))
    show "filter (\<lambda>x. dashboard_title k = dashboard_title x) ys =
          filter (\<lambda>x. dashboard_title k = dashboard_title x) g" for k
      using ys(4) by (simp add: eq_commute [of "dashboard_title k"])
  qed
  with ys(1) Cons show ?thesis by (simp add: SliceStable_by_title_def)
qed

lemma insert_left_None:
  "RC_Dashboard x = None \<or> RC_Dashboard y = None \<Longrightarrow> insert_left x (y # p) = None"
  by (auto simp: less_title_def split: option.splits)

lemma insertion_loop_None_iff:
  assumes "p \<noteq> []" and "2 \<le> length p \<longrightarrow> (\<forall>y\<in>set p. RC_Dashboard y \<noteq> None)"
  shows "insertion_loop p xs = None \<longleftrightarrow> xs \<noteq> [] \<and> (\<exists>r\<in>set p \<union> set xs. RC_Dashboard r = None)"
  using assms
proof (induction xs arbitrary: p)
  case Nil
  then show ?case by simp
next
  case (Cons x xs)
  from Cons.prems(1) obtain y q where p: "p = y # q" by (cases p) auto
  show ?case
  proof (cases "RC_Dashboard x = None \<or> RC_Dashboard y = None")
    case True
    then have "insert_left x p = None" unfolding p by (rule insert_left_None)
    with True p show ?thesis by auto
  next
    case False
    have allp: "\<forall>z\<in>set p. RC_Dashboard z \<noteq> None"
    proof (cases q)
      case Nil
      with False p show ?thesis by simp
    next
      case (Cons a q')
      with Cons.prems(2) p show ?thesis by simp
    qed
    with False insert_left_total [of x p]
    obtain p' where p': "insert_left x p = Some p'" "set p' = insert x (set p)"
        "length p' = Suc (length p)"
      by auto
    have "p' \<noteq> []" using p'(3) by auto
    moreover have "2 \<le> length p' \<longrightarrow> (\<forall>y\<in>set p'. RC_Dashboard y \<noteq> None)"
      using p'(2) allp False by auto
    ultimately have "insertion_loop p' xs = None \<longleftrightarrow>
        xs \<noteq> [] \<and> (\<exists>r\<in>set p' \<union> set xs. RC_Dashboard r = None)"
      by (rule Cons.IH)
    then show ?thesis
      using p'(1,2) allp False by auto
  qed
qed

lemma SliceStable_by_title_None_iff:
  "SliceStable_by_title g = None \<longleftrightarrow> 2 \<le> length g \<and> (\<exists>r\<in>set g. RC_Dashboard r = None)"
proof (cases g)
  case Nil
  then show ?thesis by (simp add: SliceStable_by_title_def)
next
  case (Cons x xs)
  have "insertion_loop [x] xs = None \<longleftrightarrow>
          xs \<noteq> [] \<and> (\<exists>r\<in>set [x] \<union> set xs. RC_Dashboard r = None)"
    by (rule insertion_loop_None_iff) simp_all
  moreover have "2 \<le> length g \<longleftrightarrow> xs \<noteq> []" using Cons by (cases xs) auto
  ultimately show ?thesis using Cons by (simp add: SliceStable_by_title_def)
qed

subsection \<open>Grouping by rule name\<close>

lemma group_append_keys:
  "map fst (group_append ret n r) = (if n \<in> fst ` set ret then map fst ret else map fst ret @ [n])"
  by (induction ret n r rule: group_append.induct) auto

lemma group_append_distinct:
  "distinct (map fst ret) \<Longrightarrow> distinct (map fst (group_append ret n r))"
  by (simp add: group_append_keys)

lemma group_append_map_of:
  "map_of (group_append ret n r) k =
     (if k = n then Some ((case map_of ret n of None \<Rightarrow> [] | Some g \<Rightarrow> g) @ [r]) else map_of ret k)"
  by (induction ret n r rule: group_append.induct) auto

lemma group_loop_None_iff:
  "group_loop rs ret = None \<longleftrightarrow> (\<exists>r\<in>set rs. RC_Rule r = None)"
  by (induction rs arbitrary: ret) (auto split: option.splits)

lemma group_loop_Some:
  assumes "group_loop rs ret = Some ret'"
  shows "(distinct (map fst ret) \<longrightarrow> distinct (map fst ret')) \<and>
         (\<forall>n. map_of ret' n =
            (case map_of ret n of
               None \<Rightarrow> if filter (\<lambda>r. rule_name r = n) rs = [] then None
                        else Some (filter (\<lambda>r. rule_name r = n) rs)
             | Some g \<Rightarrow> Some (g @ filter (\<lambda>r. rule_name r = n) rs)))"
  using assms
proof (induction rs arbitrary: ret)
  case Nil
  then show ?case by (auto split: option.splits)
next
  case (Cons r rs)
  from Cons.prems obtain rule where rule: "RC_Rule r = Some rule"
    and loop: "group_loop rs (group_append ret (Name rule) r) = Some ret'"
    by (auto split: option.splits)
  have name: "rule_name r = Name rule" using rule by (simp add: rule_name_def)
  from Cons.IH [OF loop] show ?case
    by (auto simp: group_append_distinct group_append_map_of name split: option.splits)
qed

lemma sort_groups_None_iff:
  "sort_groups ret = None \<longleftrightarrow> (\<exists>n g. (n, g) \<in> set ret \<and> SliceStable_by_title g = None)"
proof (induction ret rule: sort_groups.induct)
  case 1
  show ?case by simp
next
  case (2 name rule ret)
  have "sort_groups ((name, rule) # ret) = None \<longleftrightarrow>
          SliceStable_by_title rule = None \<or> sort_groups ret = None"
    by (simp split: option.splits)
  also have "\<dots> \<longleftrightarrow> SliceStable_by_title rule = None \<or>
          (\<exists>n g. (n, g) \<in> set ret \<and> SliceStable_by_title g = None)"
  proof (cases "SliceStable_by_title rule")
    case None
    then show ?thesis by simp
  next
    case (Some sorted_rule)
    from "2.IH" [OF Some] show ?thesis by simp
  qed
  also have "\<dots> \<longleftrightarrow>
          (\<exists>n g. (n, g) \<in> set ((name, rule) # ret) \<and> SliceStable_by_title g = None)"
    by auto
  finally show ?case .
qed

lemma sort_groups_Some:
  "sort_groups ret = Some ret' \<Longrightarrow>
   map_of ret' n = (case map_of ret n of None \<Rightarrow> None | Some g \<Rightarrow> SliceStable_by_title g)"
  by (induction ret arbitrary: ret' rule: sort_groups.induct) (auto split: option.splits)

lemma ByRule_None_iff:
  assumes "\<forall>r\<in>set (results rs). RC_Rule r \<noteq> None"
  shows "ByRule rs = None \<longleftrightarrow>
     (\<exists>n. SliceStable_by_title (filter (\<lambda>r. rule_name r = n) (results rs)) = None)"
proof -
  from assms group_loop_None_iff [of "results rs" "[]"]
  obtain ret where ret: "group_loop (results rs) [] = Some ret" by auto
  from group_loop_Some [OF ret]
  have d: "distinct (map fst ret)"
    and m: "\<And>n. map_of ret n =
       (if filter (\<lambda>r. rule_name r = n) (results rs) = [] then None
        else Some (filter (\<lambda>r. rule_name r = n) (results rs)))"
    by auto
  have "ByRule rs = None \<longleftrightarrow> sort_groups ret = None"
    by (simp add: ByRule_def ret split: option.splits)
  also have "\<dots> \<longleftrightarrow> (\<exists>n g. map_of ret n = Some g \<and> SliceStable_by_title g = None)"
    by (simp add: sort_groups_None_iff map_of_eq_Some_iff [OF d])
  also have "\<dots> \<longleftrightarrow>
     (\<exists>n. SliceStable_by_title (filter (\<lambda>r. rule_name r = n) (results rs)) = None)"
  proof
    assume "\<exists>n g. map_of ret n = Some g \<and> SliceStable_by_title g = None"
    then obtain n g where "map_of ret n = Some g" "SliceStable_by_title g = None" by blast
    then have "SliceStable_by_title (filter (\<lambda>r. rule_name r = n) (results rs)) = None"
      by (simp add: m split: if_splits)
    then show "\<exists>n. SliceStable_by_title (filter (\<lambda>r. rule_name r = n) (results rs)) = None" ..
  next
    assume "\<exists>n. SliceStable_by_title (filter (\<lambda>r. rule_name r = n) (results rs)) = None"
    then obtain n where n: "SliceStable_by_title (filter (\<lambda>r. rule_name r = n) (results rs)) = None"
      ..
    then have "filter (\<lambda>r. rule_name r = n) (results rs) \<noteq> []"
      by (auto simp: SliceStable_by_title_def)
    then have "map_of ret n = Some (filter (\<lambda>r. rule_name r = n) (results rs))"
      by (simp add: m)
    with n show "\<exists>n g. map_of ret n = Some g \<and> SliceStable_by_title g = None" by blast
  qed
  finally show ?thesis .
qed

lemma ByRule_Some:
  assumes "ByRule rs = Some m"
  shows "m n = (if filter (\<lambda>r. rule_name r = n) (results rs) = [] then None
                else SliceStable_by_title (filter (\<lambda>r. rule_name r = n) (results rs)))"
proof -
  from assms obtain ret ret' where ret: "group_loop (results rs) [] = Some ret"
    and ret': "sort_groups ret = Some ret'" and m: "m = map_of ret'"
    by (auto simp: ByRule_def split: option.splits)
  from group_loop_Some [OF ret]
  have "map_of ret n =
       (if filter (\<lambda>r. rule_name r = n) (results rs) = [] then None
        else Some (filter (\<lambda>r. rule_name r = n) (results rs)))"
    by auto
  with sort_groups_Some [OF ret', of n] m show ?thesis by simp
qed

subsection \<open>The grouped report order\<close>

lemma same_subsequences_mset:
  assumes "\<And>n t. filter (\<lambda>r. rule_name r = n \<and> dashboard_title r = t) xs =
                  filter (\<lambda>r. rule_name r = n \<and> dashboard_title r = t) ys"
  shows "mset xs = mset ys"
proof (rule multiset_eqI)
  fix r
  let ?P = "\<lambda>y. rule_name y = rule_name r \<and> dashboard_title y = dashboard_title r"
  have narrow: "filter (\<lambda>y. r = y) (filter ?P zs) = filter (\<lambda>y. r = y) zs" for zs
    unfolding filter_filter by (rule filter_cong [OF refl]) auto
  have "filter (\<lambda>y. r = y) xs = filter (\<lambda>y. r = y) (filter ?P xs)"
    by (simp only: narrow)
  also have "\<dots> = filter (\<lambda>y. r = y) (filter ?P ys)"
    by (simp only: assms [of "rule_name r" "dashboard_title r"])
  also have "\<dots> = filter (\<lambda>y. r = y) ys"
    by (simp only: narrow)
  finally have "length (filter (\<lambda>y. r = y) xs) = length (filter (\<lambda>y. r = y) ys)"
    by (rule arg_cong)
  then show "count (mset xs) r = count (mset ys) r"
    by (simp only: count_mset count_list_eq_length_filter)
qed

lemma same_subsequences_sort_key:
  assumes "\<And>n t. filter (\<lambda>r. rule_name r = n \<and> dashboard_title r = t) xs =
                  filter (\<lambda>r. rule_name r = n \<and> dashboard_title r = t) ys"
  shows "sort_key dashboard_title (filter (\<lambda>r. rule_name r = n) xs) =
         sort_key dashboard_title (filter (\<lambda>r. rule_name r = n) ys)"
proof (rule properties_for_sort_key)
  let ?g = "\<lambda>zs. filter (\<lambda>r. rule_name r = n) zs"
  have "mset xs = mset ys" using assms by (rule same_subsequences_mset)
  then have "mset (?g xs) = mset (?g ys)" by simp
  then show "mset (sort_key dashboard_title (?g ys)) = mset (?g xs)" by simp
  show "sorted (map dashboard_title (sort_key dashboard_title (?g ys)))" by simp
  fix k
  have "filter (\<lambda>x. dashboard_title k = dashboard_title x) (sort_key dashboard_title (?g ys)) =
        filter (\<lambda>x. dashboard_title x = dashboard_title k) (?g ys)"
    by (simp add: sort_key_stable eq_commute [of "dashboard_title k"])
  also have "\<dots> = filter (\<lambda>r. rule_name r = n \<and> dashboard_title r = dashboard_title k) ys"
    by (simp add: conj_commute)
  also have "\<dots> = filter (\<lambda>r. rule_name r = n \<and> dashboard_title r = dashboard_title k) xs"
    by (simp add: assms)
  also have "\<dots> = filter (\<lambda>x. dashboard_title k = dashboard_title x) (?g xs)"
    by (simp add: conj_commute eq_commute [of "dashboard_title k"])
  finally show "filter (\<lambda>x. dashboard_title k = dashboard_title x) (sort_key dashboard_title (?g ys)) =
        filter (\<lambda>x. dashboard_title k = dashboard_title x) (?g xs)" .
qed

lemma ByRule_sort_key:
  assumes "\<forall>r\<in>set (results rs). RC_Rule r \<noteq> None \<and> RC_Dashboard r \<noteq> None"
  shows "ByRule rs =
     Some (\<lambda>n. if filter (\<lambda>r. rule_name r = n) (results rs) = [] then None
               else Some (sort_key dashboard_title (filter (\<lambda>r. rule_name r = n) (results rs))))"
proof -
  have s: "SliceStable_by_title (filter (\<lambda>r. rule_name r = n) (results rs)) =
           Some (sort_key dashboard_title (filter (\<lambda>r. rule_name r = n) (results rs)))" for n
    using assms by (intro SliceStable_by_title_sort_key) simp
  from assms have "\<forall>r\<in>set (results rs). RC_Rule r \<noteq> None" by blast
  from ByRule_None_iff [OF this] s obtain m where m: "ByRule rs = Some m"
    by (cases "ByRule rs") auto
  have "m = (\<lambda>n. if filter (\<lambda>r. rule_name r = n) (results rs) = [] then None
               else Some (sort_key dashboard_title (filter (\<lambda>r. rule_name r = n) (results rs))))"
    by (rule ext) (simp add: ByRule_Some [OF m] s)
  with m show ?thesis by simp
qed

lemma SliceStable_by_title_short: "length g < 2 \<Longrightarrow> SliceStable_by_title g = Some g"
proof (cases g)
  case Nil
  then show ?thesis by (simp add: SliceStable_by_title_def)
next
  case (Cons x xs)
  assume "length g < 2"
  with Cons have "xs = []" by simp
  with Cons show ?thesis by (simp add: SliceStable_by_title_def)
qed

lemma SliceStable_by_title_Some:
  assumes "SliceStable_by_title g = Some g'"
  shows "g' = sort_key dashboard_title g"
proof (cases "2 \<le> length g")
  case True
  with assms SliceStable_by_title_None_iff [of g] have "\<forall>y\<in>set g. RC_Dashboard y \<noteq> None"
    by auto
  from SliceStable_by_title_sort_key [OF this] assms show ?thesis by simp
next
  case False
  then have short: "length g < 2" by simp
  with assms have "g' = g" by (simp add: SliceStable_by_title_short)
  moreover from short have "sort_key dashboard_title g = g"
    by (cases g) simp_all
  ultimately show ?thesis by simp
qed

lemma ByRule_Some_rules:
  assumes "ByRule rs = Some m"
  shows "\<forall>r\<in>set (results rs). RC_Rule r \<noteq> None"
proof -
  from assms have "group_loop (results rs) [] \<noteq> None"
    by (auto simp: ByRule_def split: option.splits)
  then show ?thesis by (simp add: group_loop_None_iff)
qed

lemma ByRule_Some_sort_key:
  assumes "ByRule rs = Some m"
  shows "m = (\<lambda>n. if filter (\<lambda>r. rule_name r = n) (results rs) = [] then None
               else Some (sort_key dashboard_title (filter (\<lambda>r. rule_name r = n) (results rs))))"
proof (rule ext)
  fix n
  let ?g = "filter (\<lambda>r. rule_name r = n) (results rs)"
  from ByRule_None_iff [OF ByRule_Some_rules [OF assms]] assms
  have "SliceStable_by_title ?g \<noteq> None" by auto
  then obtain g' where g': "SliceStable_by_title ?g = Some g'" by auto
  then have "g' = sort_key dashboard_title ?g" by (rule SliceStable_by_title_Some)
  with g' ByRule_Some [OF assms, of n]
  show "m n = (if ?g = [] then None else Some (sort_key dashboard_title ?g))" by simp
qed

text \<open>
  Claim C8. Whenever \<open>ByRule\<close> returns, as it does when every context has a rule and a
  dashboard, the keys of its map are exactly the rule names that occur; the group of a
  name holds exactly the contexts of that rule, sorted by dashboard title, and contexts
  with equal titles keep the order they had in the result set. The map is the same for
  every other order of the results that keeps the contexts of equal rule and title in
  the same relative order, so the order in which contexts of distinct titles were added
  does not show.
\<close>

theorem ByRule_groups_stably_sorted:
  "((\<forall>r\<in>set (results rs). RC_Rule r \<noteq> None \<and> RC_Dashboard r \<noteq> None) \<longrightarrow> ByRule rs \<noteq> None) \<and>
   (\<forall>m. ByRule rs = Some m \<longrightarrow>
     (\<forall>n. (m n = None \<longleftrightarrow> n \<notin> rule_name ` set (results rs)) \<and>
          (\<forall>g. m n = Some g \<longrightarrow>
             mset g = mset (filter (\<lambda>r. rule_name r = n) (results rs)) \<and>
             sorted (map dashboard_title g) \<and>
             (\<forall>t. filter (\<lambda>r. dashboard_title r = t) g =
                  filter (\<lambda>r. dashboard_title r = t) (filter (\<lambda>r. rule_name r = n) (results rs))))) \<and>
     (\<forall>rs'. (\<forall>n t. filter (\<lambda>r. rule_name r = n \<and> dashboard_title r = t) (results rs') =
                   filter (\<lambda>r. rule_name r = n \<and> dashboard_title r = t) (results rs)) \<longrightarrow>
            ByRule rs' = Some m))"
proof -
  let ?g = "\<lambda>zs n. filter (\<lambda>r. rule_name r = n) zs"
  let ?m = "\<lambda>zs n. if ?g zs n = [] then None else Some (sort_key dashboard_title (?g zs n))"
  have 0: "ByRule rs \<noteq> None"
    if "\<forall>r\<in>set (results rs). RC_Rule r \<noteq> None \<and> RC_Dashboard r \<noteq> None"
    using that by (simp add: ByRule_sort_key)
  have 1: "?m (results rs) n = None \<longleftrightarrow> n \<notin> rule_name ` set (results rs)" for n
    by (auto simp: filter_empty_conv)
  have 2: "mset g = mset (?g (results rs) n) \<and> sorted (map dashboard_title g) \<and>
           (\<forall>t. filter (\<lambda>r. dashboard_title r = t) g =
                  filter (\<lambda>r. dashboard_title r = t) (?g (results rs) n))"
    if "?m (results rs) n = Some g" for n g
  proof -
    from that have "g = sort_key dashboard_title (?g (results rs) n)" by (simp split: if_splits)
    then show ?thesis by (simp add: sort_key_stable)
  qed
  have 3: "ByRule rs' = Some m"
    if m: "ByRule rs = Some m"
      and same: "\<forall>n t. filter (\<lambda>r. rule_name r = n \<and> dashboard_title r = t) (results rs') =
                   filter (\<lambda>r. rule_name r = n \<and> dashboard_title r = t) (results rs)" for rs' m
  proof -
    from same have same': "\<And>n t. filter (\<lambda>r. rule_name r = n \<and> dashboard_title r = t) (results rs') =
                   filter (\<lambda>r. rule_name r = n \<and> dashboard_title r = t) (results rs)" by blast
    have ms: "mset (results rs') = mset (results rs)" using same' by (rule same_subsequences_mset)
    then have set: "set (results rs') = set (results rs)" by (rule mset_eq_setD)
    have rules: "\<forall>r\<in>set (results rs). RC_Rule r \<noteq> None" using m by (rule ByRule_Some_rules)
    then have rules': "\<forall>r\<in>set (results rs'). RC_Rule r \<noteq> None" using set by simp
    have grp: "mset (?g (results rs') n) = mset (?g (results rs) n)" for n
      using ms by simp
    have "SliceStable_by_title (?g (results rs') n) \<noteq> None" for n
    proof
      assume "SliceStable_by_title (?g (results rs') n) = None"
      then have "2 \<le> length (?g (results rs') n) \<and>
                 (\<exists>r\<in>set (?g (results rs') n). RC_Dashboard r = None)"
        by (simp only: SliceStable_by_title_None_iff)
      moreover have "length (?g (results rs') n) = length (?g (results rs) n)"
        using grp [of n] by (rule mset_eq_length)
      moreover have "set (?g (results rs') n) = set (?g (results rs) n)"
        using grp [of n] by (rule mset_eq_setD)
      ultimately have bad: "SliceStable_by_title (?g (results rs) n) = None"
        by (simp only: SliceStable_by_title_None_iff)
      from ByRule_None_iff [OF rules] m
      have "\<not> (\<exists>n. SliceStable_by_title (?g (results rs) n) = None)" by simp
      with bad show False by blast
    qed
    with ByRule_None_iff [OF rules'] obtain m' where m': "ByRule rs' = Some m'"
      by (cases "ByRule rs'") auto
    have "m' = ?m (results rs')" using m' by (rule ByRule_Some_sort_key)
    also have "\<dots> = ?m (results rs)"
    proof (rule ext)
      fix n
      have "?g (results rs') n = [] \<longleftrightarrow> ?g (results rs) n = []"
        by (simp add: filter_empty_conv set)
      moreover have "sort_key dashboard_title (?g (results rs') n) =
                     sort_key dashboard_title (?g (results rs) n)"
        using same' by (rule same_subsequences_sort_key)
      ultimately show "?m (results rs') n = ?m (results rs) n" by simp
    qed
    also have "\<dots> = m" using m by (rule ByRule_Some_sort_key [symmetric])
    finally show ?thesis using m' by simp
  qed
  show ?thesis
  proof (intro conjI allI impI)
    assume "\<forall>r\<in>set (results rs). RC_Rule r \<noteq> None \<and> RC_Dashboard r \<noteq> None"
    then show "ByRule rs \<noteq> None" by (rule 0)
  next
    fix m n
    assume m: "ByRule rs = Some m"
    then have eq: "m = ?m (results rs)" by (rule ByRule_Some_sort_key)
    show "m n = None \<longleftrightarrow> n \<notin> rule_name ` set (results rs)"
      unfolding eq by (rule 1)
  next
    fix m n g
    assume m: "ByRule rs = Some m" and g: "m n = Some g"
    from m have eq: "m = ?m (results rs)" by (rule ByRule_Some_sort_key)
    from g have "?m (results rs) n = Some g" by (simp only: eq)
    from 2 [OF this]
    show "mset g = mset (?g (results rs) n)" "sorted (map dashboard_title g)"
      by blast+
  next
    fix m n g t
    assume m: "ByRule rs = Some m" and g: "m n = Some g"
    from m have eq: "m = ?m (results rs)" by (rule ByRule_Some_sort_key)
    from g have "?m (results rs) n = Some g" by (simp only: eq)
    from 2 [OF this]
    show "filter (\<lambda>r. dashboard_title r = t) g =
          filter (\<lambda>r. dashboard_title r = t) (?g (results rs) n)"
      by blast
  next
    fix m and rs' :: ResultSet
    assume "ByRule rs = Some m"
      and "\<forall>n t. filter (\<lambda>r. rule_name r = n \<and> dashboard_title r = t) (results rs') =
                   filter (\<lambda>r. rule_name r = n \<and> dashboard_title r = t) (results rs)"
    then show "ByRule rs' = Some m" by (rule 3)
  qed
qed

theorem ByRule_groups_stably_sorted_witness:
  "\<exists>m. ByRule \<lparr>results = [newResultContext ''rule1'' ''b'' [] [] Error,
                             newResultContext ''rule2'' ''a'' [] [] Error,
                             newResultContext ''rule1'' ''a'' [] [] Success,
                             newResultContext ''rule1'' ''b'' [] [] Warning], config = None\<rparr> = Some m \<and>
       m ''rule1'' = Some [newResultContext ''rule1'' ''a'' [] [] Success,
                           newResultContext ''rule1'' ''b'' [] [] Error,
                           newResultContext ''rule1'' ''b'' [] [] Warning] \<and>
       m ''rule2'' = Some [newResultContext ''rule2'' ''a'' [] [] Error] \<and>
       m ''rule3'' = None \<and>
       ByRule \<lparr>results = [newResultContext ''rule1'' ''a'' [] [] Success,
                          newResultContext ''rule1'' ''b'' [] [] Error,
                          newResultContext ''rule2'' ''a'' [] [] Error,
                          newResultContext ''rule1'' ''b'' [] [] Warning], config = None\<rparr> = Some m"
proof -
  let ?a = "newResultContext ''rule1'' ''b'' [] [] Error"
  let ?b = "newResultContext ''rule2'' ''a'' [] [] Error"
  let ?c = "newResultContext ''rule1'' ''a'' [] [] Success"
  let ?d = "newResultContext ''rule1'' ''b'' [] [] Warning"
  let ?rs = "\<lparr>results = [?a, ?b, ?c, ?d], config = None\<rparr>"
  let ?rs' = "\<lparr>results = [?c, ?a, ?b, ?d], config = None\<rparr>"
  have pre: "\<forall>r\<in>set (results ?rs). RC_Rule r \<noteq> None \<and> RC_Dashboard r \<noteq> None"
    by (simp add: newResultContext_def)
  have same: "\<forall>n t. filter (\<lambda>r. rule_name r = n \<and> dashboard_title r = t) (results ?rs') =
                     filter (\<lambda>r. rule_name r = n \<and> dashboard_title r = t) (results ?rs)"
    by (simp add: newResultContext_def rule_name_def dashboard_title_def)
  have run: "ByRule ?rs = Some (map_of [(''rule1'', [?c, ?a, ?d]), (''rule2'', [?b])])"
    by (simp add: ByRule_def SliceStable_by_title_def less_title_def newResultContext_def)
  from ByRule_groups_stably_sorted [of ?rs] pre obtain m where m: "ByRule ?rs = Some m"
    by blast
  from ByRule_groups_stably_sorted [of ?rs] m
  have inv: "\<forall>rs'. (\<forall>n t. filter (\<lambda>r. rule_name r = n \<and> dashboard_title r = t) (results rs') =
                   filter (\<lambda>r. rule_name r = n \<and> dashboard_title r = t) (results ?rs)) \<longrightarrow>
            ByRule rs' = Some m"
    by blast
  from inv same have again: "ByRule ?rs' = Some m" by blast
  from m run have "m = map_of [(''rule1'', [?c, ?a, ?d]), (''rule2'', [?b])]" by simp
  then have "m ''rule1'' = Some [?c, ?a, ?d]" "m ''rule2'' = Some [?b]" "m ''rule3'' = None"
    by simp_all
  with m again show ?thesis by blast
qed

text \<open>
  Claim C10. When every context has a rule, \<open>ByRule\<close> panics with a nil dereference
  exactly when some context with a nil \<open>Dashboard\<close> lies in a rule group of at least two
  contexts: sorting a group of two or more with a nil \<open>Dashboard\<close> in it always
  dereferences it, and a group of fewer than two is returned without any comparison.
\<close>
theorem ByRule_nil_Dashboard:
  assumes "\<forall>r\<in>set (results rs). RC_Rule r \<noteq> None"
  shows "(ByRule rs = None \<longleftrightarrow>
           (\<exists>r\<in>set (results rs). RC_Dashboard r = None \<and>
              2 \<le> length (filter (\<lambda>r'. rule_name r' = rule_name r) (results rs)))) \<and>
         (\<forall>g. 2 \<le> length g \<and> (\<exists>r\<in>set g. RC_Dashboard r = None) \<longrightarrow> SliceStable_by_title g = None) \<and>
         (\<forall>g. length g < 2 \<longrightarrow> SliceStable_by_title g = Some g)"
proof -
  have "ByRule rs = None \<longleftrightarrow>
           (\<exists>r\<in>set (results rs). RC_Dashboard r = None \<and>
              2 \<le> length (filter (\<lambda>r'. rule_name r' = rule_name r) (results rs)))"
    unfolding ByRule_None_iff [OF assms] SliceStable_by_title_None_iff by auto
  then show ?thesis
    by (simp add: SliceStable_by_title_None_iff SliceStable_by_title_short)
qed

theorem ByRule_nil_Dashboard_witness:
  "ByRule \<lparr>results = [newResultContext ''rule1'' [] [] [] Success,
                      newResultContext ''rule2'' [] [] [] Success], config = None\<rparr> \<noteq> None \<and>
   ByRule \<lparr>results = [newResultContext ''rule1'' ''dash1'' [] [] Success,
                      newResultContext ''rule1'' [] [] [] Success], config = None\<rparr> = None"
proof -
  let ?ok = "\<lparr>results = [newResultContext ''rule1'' [] [] [] Success,
                      newResultContext ''rule2'' [] [] [] Success], config = None\<rparr>"
  let ?bad = "\<lparr>results = [newResultContext ''rule1'' ''dash1'' [] [] Success,
                      newResultContext ''rule1'' [] [] [] Success], config = None\<rparr>"
  have 1: "\<forall>r\<in>set (results ?ok). RC_Rule r \<noteq> None" by (simp add: newResultContext_def)
  have 2: "\<forall>r\<in>set (results ?bad). RC_Rule r \<noteq> None" by (simp add: newResultContext_def)
  have 3: "\<not> (\<exists>r\<in>set (results ?ok). RC_Dashboard r = None \<and>
              2 \<le> length (filter (\<lambda>r'. rule_name r' = rule_name r) (results ?ok)))"
    by (simp add: newResultContext_def rule_name_def)
  have 4: "\<exists>r\<in>set (results ?bad). RC_Dashboard r = None \<and>
              2 \<le> length (filter (\<lambda>r'. rule_name r' = rule_name r) (results ?bad))"
    by (simp add: newResultContext_def rule_name_def)
  from ByRule_nil_Dashboard [OF 1] 3 have "ByRule ?ok \<noteq> None" by blast
  moreover from ByRule_nil_Dashboard [OF 2] 4 have "ByRule ?bad = None" by blast
  ultimately show ?thesis by blast
qed

section \<open>The panel job/instance rule\<close>

text \<open>
  Claim C7. The panel job/instance rule on a panel with one target: a query that does
  not parse passes with \<open>OK\<close>; a query whose selector has \<open>job=~"$job"\<close> and
  \<open>instance=~"$instance"\<close> passes with \<open>OK\<close>; and the rule fails with
  \<open>job selector not found\<close>, \<open>instance selector not found\<close>,
  \<open>job selector is =, not =~\<close> and \<open>job selector is <value>, not $job\<close> for a selector
  with no job matcher, with a right job matcher but no instance matcher, with an
  exact-match job matcher, and with a regex job matcher of another value; each failure
  message starts with \<open>Dashboard '<title>', panel '<title>'\<close>.
\<close>

theorem PanelJobInstanceRule_checks:
  assumes "Targets p = [t]"
  shows
   "(parse (Expr t) = None \<longrightarrow> PanelJobInstanceRule_LintPanel parse d p = OK_Result) \<and>
    (parse (Expr t) = Some [sel] \<longrightarrow>
       (find_matcher ''job'' sel = Some \<lparr>Matcher_Name = ''job'', Matcher_Type = MatchRegexp, Matcher_Value = ''$job''\<rparr> \<and>
        find_matcher ''instance'' sel =
          Some \<lparr>Matcher_Name = ''instance'', Matcher_Type = MatchRegexp, Matcher_Value = ''$instance''\<rparr> \<longrightarrow>
          PanelJobInstanceRule_LintPanel parse d p = \<lparr>Severity_of = Success, Message = ''OK''\<rparr>) \<and>
       (find_matcher ''job'' sel = None \<longrightarrow>
          PanelJobInstanceRule_LintPanel parse d p =
            \<lparr>Severity_of = Error, Message = failure_message d p (Expr t) ''job selector not found''\<rparr>) \<and>
       (find_matcher ''job'' sel = Some \<lparr>Matcher_Name = ''job'', Matcher_Type = MatchRegexp, Matcher_Value = ''$job''\<rparr> \<and>
        find_matcher ''instance'' sel = None \<longrightarrow>
          PanelJobInstanceRule_LintPanel parse d p =
            \<lparr>Severity_of = Error, Message = failure_message d p (Expr t) ''instance selector not found''\<rparr>) \<and>
       (\<forall>v. find_matcher ''job'' sel = Some \<lparr>Matcher_Name = ''job'', Matcher_Type = MatchEqual, Matcher_Value = v\<rparr> \<longrightarrow>
          PanelJobInstanceRule_LintPanel parse d p =
            \<lparr>Severity_of = Error, Message = failure_message d p (Expr t) ''job selector is =, not =~''\<rparr>) \<and>
       (\<forall>v. v \<noteq> ''$job'' \<and>
          find_matcher ''job'' sel = Some \<lparr>Matcher_Name = ''job'', Matcher_Type = MatchRegexp, Matcher_Value = v\<rparr> \<longrightarrow>
          PanelJobInstanceRule_LintPanel parse d p =
            \<lparr>Severity_of = Error,
              Message = failure_message d p (Expr t) (''job selector is '' @ v @ '', not $job'')\<rparr>))"
  using assms
  by (simp add: PanelJobInstanceRule_LintPanel_def OK_Result_def check_selector_def check_label_def)

lemmas query_defs =
  query_valid_def query_unparsable_def query_no_matcher_def query_no_instance_def
  query_not_regexp_def query_wrong_variable_def dquote_def squote_def

theorem PanelJobInstanceRule_checks_witness:
  "PanelJobInstanceRule_LintPanel test_parse test_dashboard (test_panel query_valid) =
     \<lparr>Severity_of = Success, Message = ''OK''\<rparr> \<and>
   PanelJobInstanceRule_LintPanel test_parse test_dashboard (test_panel query_unparsable) =
     \<lparr>Severity_of = Success, Message = ''OK''\<rparr> \<and>
   PanelJobInstanceRule_LintPanel test_parse test_dashboard (test_panel query_no_matcher) =
     \<lparr>Severity_of = Error,
      Message = ''Dashboard '' @ squote @ ''dashboard'' @ squote @ '', panel '' @ squote @ ''panel'' @
        squote @ '' invalid PromQL query '' @ squote @ query_no_matcher @ squote @
        '': job selector not found''\<rparr> \<and>
   PanelJobInstanceRule_LintPanel test_parse test_dashboard (test_panel query_no_instance) =
     \<lparr>Severity_of = Error,
      Message = ''Dashboard '' @ squote @ ''dashboard'' @ squote @ '', panel '' @ squote @ ''panel'' @
        squote @ '' invalid PromQL query '' @ squote @ query_no_instance @ squote @
        '': instance selector not found''\<rparr> \<and>
   PanelJobInstanceRule_LintPanel test_parse test_dashboard (test_panel query_not_regexp) =
     \<lparr>Severity_of = Error,
      Message = ''Dashboard '' @ squote @ ''dashboard'' @ squote @ '', panel '' @ squote @ ''panel'' @
        squote @ '' invalid PromQL query '' @ squote @ query_not_regexp @ squote @
        '': job selector is =, not =~''\<rparr> \<and>
   PanelJobInstanceRule_LintPanel test_parse test_dashboard (test_panel query_wrong_variable) =
     \<lparr>Severity_of = Error,
      Message = ''Dashboard '' @ squote @ ''dashboard'' @ squote @ '', panel '' @ squote @ ''panel'' @
        squote @ '' invalid PromQL query '' @ squote @ query_wrong_variable @ squote @
        '': job selector is $instance, not $job''\<rparr>"
proof -
  let ?name = "matcher ''__name__'' MatchEqual ''foo''"
  have t: "Targets (test_panel q) = [\<lparr>Idx = 0, Expr = q\<rparr>]" for q
    by (simp add: test_panel_def)
  have p1: "test_parse query_valid =
      Some [[matcher ''job'' MatchRegexp ''$job'', matcher ''instance'' MatchRegexp ''$instance'', ?name]]"
    by (simp add: test_parse_def query_defs)
  have p2: "test_parse query_unparsable = None"
    by (simp add: test_parse_def query_defs)
  have p3: "test_parse query_no_matcher = Some [[?name]]"
    by (simp add: test_parse_def query_defs)
  have p4: "test_parse query_no_instance = Some [[matcher ''job'' MatchRegexp ''$job'', ?name]]"
    by (simp add: test_parse_def query_defs)
  have p5: "test_parse query_not_regexp =
      Some [[matcher ''job'' MatchEqual ''$job'', matcher ''instance'' MatchEqual ''$instance'', ?name]]"
    by (simp add: test_parse_def query_defs)
  have p6: "test_parse query_wrong_variable =
      Some [[matcher ''job'' MatchRegexp ''$instance'', matcher ''instance'' MatchRegexp ''$job'', ?name]]"
    by (simp add: test_parse_def query_defs)
  have msg: "failure_message test_dashboard (test_panel q) q e =
      ''Dashboard '' @ squote @ ''dashboard'' @ squote @ '', panel '' @ squote @ ''panel'' @
        squote @ '' invalid PromQL query '' @ squote @ q @ squote @ '': '' @ e" for q e
    by (simp add: failure_message_def test_dashboard_def test_panel_def)
  from PanelJobInstanceRule_checks [OF t [of query_valid], where parse = test_parse and d = test_dashboard
      and sel = "[matcher ''job'' MatchRegexp ''$job'', matcher ''instance'' MatchRegexp ''$instance'', ?name]"] p1
  have 1: "PanelJobInstanceRule_LintPanel test_parse test_dashboard (test_panel query_valid) =
     \<lparr>Severity_of = Success, Message = ''OK''\<rparr>"
    by (simp add: matcher_def)
  from PanelJobInstanceRule_checks [OF t [of query_unparsable], where parse = test_parse and d = test_dashboard
      and sel = "[]"] p2
  have 2: "PanelJobInstanceRule_LintPanel test_parse test_dashboard (test_panel query_unparsable) =
     \<lparr>Severity_of = Success, Message = ''OK''\<rparr>"
    by (simp add: OK_Result_def)
  from PanelJobInstanceRule_checks [OF t [of query_no_matcher], where parse = test_parse and d = test_dashboard
      and sel = "[?name]"] p3
  have 3: "PanelJobInstanceRule_LintPanel test_parse test_dashboard (test_panel query_no_matcher) =
     \<lparr>Severity_of = Error,
      Message = failure_message test_dashboard (test_panel query_no_matcher) query_no_matcher
        ''job selector not found''\<rparr>"
    by (simp add: matcher_def)
  from PanelJobInstanceRule_checks [OF t [of query_no_instance], where parse = test_parse and d = test_dashboard
      and sel = "[matcher ''job'' MatchRegexp ''$job'', ?name]"] p4
  have 4: "PanelJobInstanceRule_LintPanel test_parse test_dashboard (test_panel query_no_instance) =
     \<lparr>Severity_of = Error,
      Message = failure_message test_dashboard (test_panel query_no_instance) query_no_instance
        ''instance selector not found''\<rparr>"
    by (simp add: matcher_def)
  from PanelJobInstanceRule_checks [OF t [of query_not_regexp], where parse = test_parse and d = test_dashboard
      and sel = "[matcher ''job'' MatchEqual ''$job'', matcher ''instance'' MatchEqual ''$instance'', ?name]"] p5
  have 5: "PanelJobInstanceRule_LintPanel test_parse test_dashboard (test_panel query_not_regexp) =
     \<lparr>Severity_of = Error,
      Message = failure_message test_dashboard (test_panel query_not_regexp) query_not_regexp
        ''job selector is =, not =~''\<rparr>"
    by (simp add: matcher_def)
  from PanelJobInstanceRule_checks [OF t [of query_wrong_variable], where parse = test_parse and d = test_dashboard
      and sel = "[matcher ''job'' MatchRegexp ''$instance'', matcher ''instance'' MatchRegexp ''$job'', ?name]"] p6
  have 6: "PanelJobInstanceRule_LintPanel test_parse test_dashboard (test_panel query_wrong_variable) =
     \<lparr>Severity_of = Error,
      Message = failure_message test_dashboard (test_panel query_wrong_variable) query_wrong_variable
        ''job selector is $instance, not $job''\<rparr>"
    by (simp add: matcher_def)
  from 1 2 3 4 5 6 show ?thesis
    by (simp only: msg append_assoc) simp
qed

end
